theory Spec2Isabelle
  imports Main "HOL-Library.Word"
begin

unbundle bit_operations_syntax

section \<open>MaBoSS-client: the command-line front end of the MaBoSS server\<close>

text \<open>
  The development embeds \<^verbatim>\<open>main\<close> of \<^verbatim>\<open>engine/src/MaBoSS-client.cc\<close>. Everything
  \<^verbatim>\<open>main\<close> does besides returning its exit code is recorded, in the order of the
  source, as a list of events: what is printed on the two streams, which files are read
  and written, and the one exchange with the server.
\<close>

subsection \<open>Collaborators declared outside the source file\<close>

text \<open>
  Modelled from the spec: the class \<^verbatim>\<open>ConfigOpt\<close> of Utils.h is not among the sources.
  It is the tagged union behind a configuration fragment, as \<^verbatim>\<open>main\<close> uses it: the
  word given to \<^verbatim>\<open>--config\<close> or \<^verbatim>\<open>--config-expr\<close> with the flag that tells an
  expression from a file name, built by \<^verbatim>\<open>ConfigOpt(argv[++nn], true)\<close> and
  \<^verbatim>\<open>ConfigOpt(argv[++nn], false)\<close> and read back by \<^verbatim>\<open>isExpr\<close>, \<^verbatim>\<open>getExpr\<close>
  and \<^verbatim>\<open>getFile\<close>.
\<close>

datatype ConfigOpt = ConfigOpt string bool

fun isExpr :: "ConfigOpt \<Rightarrow> bool" where
  "isExpr (ConfigOpt file_or_expr expr) = expr"

fun getExpr :: "ConfigOpt \<Rightarrow> string" where
  "getExpr (ConfigOpt file_or_expr expr) = file_or_expr"

fun getFile :: "ConfigOpt \<Rightarrow> string" where
  "getFile (ConfigOpt file_or_expr expr) = file_or_expr"

text \<open>
  Modelled from the spec: the class \<^verbatim>\<open>ClientData\<close> of Client.h is not among the
  sources. It is the Request Model of the specification: the network text, the ordered
  list of configuration fragments, each tagged with its kind, the variable-override
  string, the command selector and the flags word (an \<^verbatim>\<open>unsigned long long\<close>); its
  operations are pure mutations.
\<close>

datatype ConfigFragment = EXPR string | FILE_CONTENTS string

datatype Command = RUN_COMMAND | CHECK_COMMAND

record ClientData =
  network :: string
  fragments :: "ConfigFragment list"
  variableOverrides :: string
  command :: Command
  flags :: "64 word"

definition ClientData_new :: ClientData where
  "ClientData_new =
     \<lparr>network = [], fragments = [], variableOverrides = [], command = RUN_COMMAND, flags = 0\<rparr>"

definition setNetwork :: "string \<Rightarrow> ClientData \<Rightarrow> ClientData" where
  "setNetwork text cd = cd\<lparr>network := text\<rparr>"

definition addConfig :: "string \<Rightarrow> ClientData \<Rightarrow> ClientData" where
  "addConfig text cd = cd\<lparr>fragments := fragments cd @ [FILE_CONTENTS text]\<rparr>"

definition addConfigExpr :: "string \<Rightarrow> ClientData \<Rightarrow> ClientData" where
  "addConfigExpr text cd = cd\<lparr>fragments := fragments cd @ [EXPR text]\<rparr>"

definition setConfigVars :: "string \<Rightarrow> ClientData \<Rightarrow> ClientData" where
  "setConfigVars text cd = cd\<lparr>variableOverrides := text\<rparr>"

definition setCommand :: "Command \<Rightarrow> ClientData \<Rightarrow> ClientData" where
  "setCommand c cd = cd\<lparr>command := c\<rparr>"

definition setFlags :: "64 word \<Rightarrow> ClientData \<Rightarrow> ClientData" where
  "setFlags bits cd = cd\<lparr>flags := bits\<rparr>"

text \<open>
  Modelled from the spec: the class \<^verbatim>\<open>ServerData\<close> of Server.h is not among the
  sources. It is the Reply Model: five text blobs, where zero length means that the blob
  was not produced, the integer status and the error message.
\<close>

record ServerData =
  getTraj :: string
  getRunLog :: string
  getProbTraj :: string
  getStatDist :: string
  getFP :: string
  getStatus :: int
  getErrorMessage :: string

text \<open>
  The three flag constants of \<^verbatim>\<open>DataStreamer\<close> (DataStreamer.h) are not among the
  sources; \<^verbatim>\<open>main\<close> takes them as a parameter.
\<close>

record DataStreamer =
  HEXFLOAT_FLAG :: "64 word"
  OVERRIDE_FLAG :: "64 word"
  AUGMENT_FLAG :: "64 word"

text \<open>
  Modelled from the spec: the class \<^verbatim>\<open>Client\<close> of Client.h is not among the sources.
  It is built from the host, the port and the verbose switch, and its \<^verbatim>\<open>send\<close> is the
  Transport Session and the Wire Codec together: one completed exchange, which fills the
  reply. \<^verbatim>\<open>main\<close> takes \<^verbatim>\<open>send\<close> as a parameter, a function from the client and
  the request to the reply received.
\<close>

datatype Client = Client string string bool

type_synonym transport = "Client \<Rightarrow> ClientData \<Rightarrow> ServerData"

subsection \<open>What the program prints, reads and writes\<close>

datatype message =
    Version_text
  | Usage_text
  | Options_text
  | Missing_value string
  | Exclusive_options
  | Unknown_option string
  | Already_set string string
  | Network_file_missing
  | Port_missing
  | Server_error string int

datatype event =
    Stdout message
  | Stderr message
  | File_get_contents string
  | File_put_contents string string
  | Exchange Client ClientData ServerData

text \<open>\<^verbatim>\<open>usage\<close> prints the usage text on the given stream and returns 1.\<close>

definition usage :: "(message \<Rightarrow> event) \<Rightarrow> event list \<times> int" where
  "usage os = ([os Usage_text], 1)"

text \<open>
  \<^verbatim>\<open>help\<close> prints the usage text and the options on the standard output and returns 0
  (\<open>help\<close> is a command of Isabelle, hence the longer name).
\<close>

definition help_main :: "event list \<times> int" where
  "help_main = (fst (usage Stdout) @ [Stdout Options_text], 0)"

text \<open>
  Modelled from the spec: \<^verbatim>\<open>fileGetContents\<close> (Utils.h) is the file-reading collaborator
  \<^verbatim>\<open>readFile(path) -> text | IOError\<close>. The file system is a map from paths to
  contents; a path outside its domain is the failure (a non-zero return in the source).
\<close>

type_synonym file_system = "string \<rightharpoonup> string"

definition fileGetContents :: "file_system \<Rightarrow> string \<Rightarrow> string option" where
  "fileGetContents fs file = fs file"

text \<open>
  Modelled from the spec: \<^verbatim>\<open>filePutContents\<close> (Utils.h) is the file-writing collaborator
  \<^verbatim>\<open>writeFile(path, text)\<close>; \<^verbatim>\<open>main\<close> ignores what it returns.
\<close>

definition filePutContents :: "string \<Rightarrow> string \<Rightarrow> event list" where
  "filePutContents file data = [File_put_contents file data]"

subsection \<open>The local variables of main\<close>

text \<open>
  The two \<^verbatim>\<open>const char*\<close> variables start as null pointers: \<open>None\<close>. The
  variable \<^verbatim>\<open>output\<close> is the field \<open>output_prefix\<close> (\<open>output\<close> is a keyword of
  Isabelle).
\<close>

record options =
  output_prefix :: "string option"
  runconfig_file_or_expr_v :: "ConfigOpt list"
  config_vars :: string
  ctbndl_file :: "string option"
  port :: string
  host :: string
  verbose :: bool
  check :: bool
  override :: bool
  augment :: bool
  hexfloat :: bool

definition initial :: options where
  "initial =
     \<lparr>output_prefix = None, runconfig_file_or_expr_v = [], config_vars = [], ctbndl_file = None,
      port = [], host = [], verbose = False, check = False, override = False,
      augment = False, hexfloat = False\<rparr>"

subsection \<open>The loop over the command line\<close>

text \<open>
  One round of the loop looks at the word \<open>opt = argv[nn]\<close>, with \<open>rest\<close> the words
  \<open>argv[nn+1]\<close> to \<open>argv[argc-1]\<close>. It either returns from \<^verbatim>\<open>main\<close> (\<open>Stop\<close>, with
  the exit code) or goes on with the words that are left (\<open>Next\<close>).
\<close>

datatype step_result = Stop "event list" int | Next "event list" options "string list"

text \<open>
  Modelled from the spec: \<^verbatim>\<open>checkArgMissing\<close> (Utils.h) is not among the sources, and
  the specification leaves the validation of the command line to such collaborators. By
  its name and its use it reports, and answers true, when option \<open>opt\<close> is the last
  word (\<open>nn = argc - 1\<close>), so that \<^verbatim>\<open>argv[++nn]\<close> after a false answer is a word of
  the command line.
\<close>

definition checkArgMissing :: "string \<Rightarrow> string list \<Rightarrow> event list \<times> bool" where
  "checkArgMissing opt rest =
     (if rest = [] then ([Stderr (Missing_value opt)], True) else ([], False))"

text \<open>
  The pattern \<^verbatim>\<open>if (checkArgMissing(...)) return usage(); x = argv[++nn];\<close> shared by
  the options that take a value; \<open>assign\<close> is the assignment.
\<close>

definition take_value :: "string \<Rightarrow> string list \<Rightarrow> (string \<Rightarrow> options) \<Rightarrow> step_result" where
  "take_value opt rest assign =
     (case rest of
        [] \<Rightarrow> Stop (fst (checkArgMissing opt rest) @ fst (usage Stderr)) (snd (usage Stderr))
      | v # rest' \<Rightarrow> Next (fst (checkArgMissing opt rest)) (assign v) rest')"

text \<open>\<^verbatim>\<open>opt[0] == '-'\<close>; the first byte of the empty word is the terminating zero.\<close>

definition dash :: "string \<Rightarrow> bool" where
  "dash opt = (case opt of [] \<Rightarrow> False | c # _ \<Rightarrow> c = CHR ''-'')"

definition step :: "options \<Rightarrow> string \<Rightarrow> string list \<Rightarrow> step_result" where
  "step st opt rest =
     (if dash opt then
        if opt = ''-version'' \<or> opt = ''--version'' then Stop [Stdout Version_text] 0
        else if opt = ''--host'' then
          take_value opt rest (\<lambda>v. st\<lparr>host := v\<rparr>)
        else if opt = ''--port'' then
          take_value opt rest (\<lambda>v. st\<lparr>port := v\<rparr>)
        else if opt = ''--config-vars'' then
          take_value opt rest
            (\<lambda>v. st\<lparr>config_vars :=
                      (if length (config_vars st) > 0 then config_vars st @ '','' else config_vars st) @ v\<rparr>)
        else if opt = ''--config-expr'' \<or> opt = ''-e'' then
          take_value opt rest
            (\<lambda>v. st\<lparr>runconfig_file_or_expr_v := runconfig_file_or_expr_v st @ [ConfigOpt v True]\<rparr>)
        else if opt = ''-o'' \<or> opt = ''--output'' then
          take_value opt rest (\<lambda>v. st\<lparr>output_prefix := Some v\<rparr>)
        else if opt = ''-c'' \<or> opt = ''--config'' then
          take_value opt rest
            (\<lambda>v. st\<lparr>runconfig_file_or_expr_v := runconfig_file_or_expr_v st @ [ConfigOpt v False]\<rparr>)
        else if opt = ''--verbose'' then Next [] (st\<lparr>verbose := True\<rparr>) rest
        else if opt = ''--override'' then
          if augment st then Stop (Stderr Exclusive_options # fst (usage Stderr)) (snd (usage Stderr))
          else Next [] (st\<lparr>override := True\<rparr>) rest
        else if opt = ''--augment'' then
          if override st then Stop (Stderr Exclusive_options # fst (usage Stderr)) (snd (usage Stderr))
          else Next [] (st\<lparr>augment := True\<rparr>) rest
        else if opt = ''--check'' then Next [] (st\<lparr>check := True\<rparr>) rest
        else if opt = ''--hexfloat'' then Next [] (st\<lparr>hexfloat := True\<rparr>) rest
        else if opt = ''--help'' \<or> opt = ''-h'' then Stop (fst help_main) (snd help_main)
        else Stop (Stderr (Unknown_option opt) # fst (usage Stderr)) (snd (usage Stderr))
      else if ctbndl_file st = None then Next [] (st\<lparr>ctbndl_file := Some opt\<rparr>) rest
      else Next [Stderr (Already_set (the (ctbndl_file st)) opt)] st rest)"

text \<open>
  The loop \<^verbatim>\<open>for (int nn = 1; nn < argc; ++nn)\<close>: the result is the events of the
  loop and either the exit code of an early \<^verbatim>\<open>return\<close> or the variables at its end.
\<close>

function main_loop :: "options \<Rightarrow> string list \<Rightarrow> event list \<times> (int + options)" where
  "main_loop st [] = ([], Inr st)"
| "main_loop st (opt # rest) =
     (case step st opt rest of
        Stop evs code \<Rightarrow> (evs, Inl code)
      | Next evs st' rest' \<Rightarrow>
          (case main_loop st' rest' of (evs', r) \<Rightarrow> (evs @ evs', r)))"
  by pat_completeness auto
termination
  by (relation "measure (\<lambda>(st, args). length args)")
    (auto simp: step_def take_value_def split: if_splits list.splits)

subsection \<open>Building the request\<close>

text \<open>
  The loop over \<^verbatim>\<open>runconfig_file_or_expr_v\<close>: an expression is added as it is, a file
  is read first, and a file that cannot be read ends \<^verbatim>\<open>main\<close> with exit code 1.
\<close>

fun add_configs ::
  "file_system \<Rightarrow> ClientData \<Rightarrow> ConfigOpt list \<Rightarrow> event list \<times> (int + ClientData)" where
  "add_configs fs client_data [] = ([], Inr client_data)"
| "add_configs fs client_data (cfg # cfgs) =
     (if isExpr cfg then add_configs fs (addConfigExpr (getExpr cfg) client_data) cfgs
      else
        (case fileGetContents fs (getFile cfg) of
           None \<Rightarrow> ([File_get_contents (getFile cfg)], Inl 1)
         | Some contents \<Rightarrow>
             (case add_configs fs (addConfig contents client_data) cfgs of
                (evs, r) \<Rightarrow> (File_get_contents (getFile cfg) # evs, r))))"

text \<open>The flags word: \<^verbatim>\<open>flags |= ...\<close> under each of the three switches.\<close>

definition flags_word :: "DataStreamer \<Rightarrow> options \<Rightarrow> 64 word" where
  "flags_word K st =
     (let flags = 0;
          flags = (if hexfloat st then flags OR HEXFLOAT_FLAG K else flags);
          flags = (if override st then flags OR OVERRIDE_FLAG K else flags);
          flags = (if augment st then flags OR AUGMENT_FLAG K else flags)
      in flags)"

text \<open>
  From the end of the loop to \<^verbatim>\<open>client_data.setFlags(flags)\<close>: the two checks of
  the network file and the port, then the request, filled in the order of the source.
\<close>

definition build_request ::
  "DataStreamer \<Rightarrow> file_system \<Rightarrow> options \<Rightarrow> event list \<times> (int + ClientData)" where
  "build_request K fs st =
     (case ctbndl_file st of
        None \<Rightarrow> (Stderr Network_file_missing # fst (usage Stderr), Inl (snd (usage Stderr)))
      | Some file \<Rightarrow>
          if length (port st) = 0 then
            (Stderr Port_missing # fst (usage Stderr), Inl (snd (usage Stderr)))
          else
            (case fileGetContents fs file of
               None \<Rightarrow> ([File_get_contents file], Inl 1)
             | Some contents \<Rightarrow>
                 (case add_configs fs (setNetwork contents ClientData_new)
                         (runconfig_file_or_expr_v st) of
                    (evs, Inl code) \<Rightarrow> (File_get_contents file # evs, Inl code)
                  | (evs, Inr client_data) \<Rightarrow>
                      (File_get_contents file # evs,
                       Inr (setFlags (flags_word K st)
                             (setCommand (if check st then CHECK_COMMAND else RUN_COMMAND)
                               (setConfigVars (config_vars st) client_data)))))))"

subsection \<open>Writing the reply\<close>

text \<open>
  \<^verbatim>\<open>std::string(output)\<close>: the constructor from a \<^verbatim>\<open>const char*\<close> has undefined
  behaviour on a null pointer; \<open>None\<close> is that case.
\<close>

definition std_string :: "string option \<Rightarrow> string option" where
  "std_string p = p"

text \<open>
  One of the five \<^verbatim>\<open>if (blob.length() > 0) filePutContents(std::string(output) + suffix, blob)\<close>.
  The result \<open>None\<close> is the undefined behaviour of \<open>std_string\<close>.
\<close>

definition put_blob :: "string option \<Rightarrow> string \<Rightarrow> string \<Rightarrow> event list option" where
  "put_blob out suffix blob =
     (if length blob > 0 then
        (case std_string out of
           None \<Rightarrow> None
         | Some prefix \<Rightarrow> Some (filePutContents (prefix @ suffix) blob))
      else Some [])"

text \<open>Statements in sequence: the first undefined one leaves the whole undefined.\<close>

definition seq :: "event list option \<Rightarrow> event list option \<Rightarrow> event list option" where
  "seq a b = (case a of None \<Rightarrow> None | Some evs \<Rightarrow> map_option (\<lambda>evs'. evs @ evs') b)"

definition write_outputs :: "string option \<Rightarrow> ServerData \<Rightarrow> event list option" where
  "write_outputs out server_data =
     seq (put_blob out ''_traj.txt'' (getTraj server_data))
    (seq (put_blob out ''_run.txt'' (getRunLog server_data))
    (seq (put_blob out ''_probtraj.csv'' (getProbTraj server_data))
    (seq (put_blob out ''_statdist.csv'' (getStatDist server_data))
         (put_blob out ''_fp.csv'' (getFP server_data)))))"

subsection \<open>main\<close>

text \<open>
  How \<^verbatim>\<open>main\<close> ends: it returns its exit code, or it has run into the undefined
  behaviour of \<open>std_string\<close>.
\<close>

datatype outcome = Returned int | Undefined

text \<open>The last lines: the status of the reply decides the exit code.\<close>

definition report :: "ServerData \<Rightarrow> event list \<times> outcome" where
  "report server_data =
     (if getStatus server_data \<noteq> 0 then
        ([Stderr (Server_error (getErrorMessage server_data) (getStatus server_data))], Returned 1)
      else ([], Returned 0))"

text \<open>
  \<^verbatim>\<open>main\<close>, from its first line to its last. \<open>argv\<close> is the command line after the
  program name, \<^verbatim>\<open>argv[1]\<close> to \<^verbatim>\<open>argv[argc-1]\<close>; \<open>K\<close>, \<open>fs\<close> and \<open>send\<close>
  are the flag constants, the files that can be read and the exchange with the server.
\<close>

definition main ::
  "DataStreamer \<Rightarrow> file_system \<Rightarrow> transport \<Rightarrow> string list \<Rightarrow> event list \<times> outcome" where
  "main K fs send argv =
     (case main_loop initial argv of
        (evs, Inl code) \<Rightarrow> (evs, Returned code)
      | (evs, Inr st) \<Rightarrow>
          (case build_request K fs st of
             (evs', Inl code) \<Rightarrow> (evs @ evs', Returned code)
           | (evs', Inr client_data) \<Rightarrow>
               (let client = Client (host st) (port st) (verbose st);
                    server_data = send client client_data;
                    sent = evs @ evs' @ [Exchange client client_data server_data]
                in case write_outputs (output_prefix st) server_data of
                     None \<Rightarrow> (sent, Undefined)
                   | Some written \<Rightarrow>
                       (sent @ written @ fst (report server_data), snd (report server_data)))))"

subsection \<open>The command line as the usage text reads it\<close>

text \<open>
  The properties below speak of the options given on the command line. Independently of
  the loop, the words of a command line are grouped from left to right: an option that takes a
  value with the word after it, any other word that starts with a dash as a switch, and
  every other word as a positional argument.
\<close>

datatype arg = Switch string | Valued string string | Positional string

definition takes_value :: "string \<Rightarrow> bool" where
  "takes_value w =
     (w \<in> set [''--host'', ''--port'', ''--config-vars'', ''--config-expr'', ''-e'',
                 ''-o'', ''--output'', ''-c'', ''--config''])"

fun command_line :: "string list \<Rightarrow> arg list" where
  "command_line [] = []"
| "command_line [w] = [if dash w then Switch w else Positional w]"
| "command_line (w # v # ws) =
     (if takes_value w then Valued w v # command_line ws
      else (if dash w then Switch w else Positional w) # command_line (v # ws))"

text \<open>The \<^verbatim>\<open>--config\<close> and \<^verbatim>\<open>--config-expr\<close> options, in the order given.\<close>

fun config_options :: "arg list \<Rightarrow> ConfigOpt list" where
  "config_options [] = []"
| "config_options (Valued w v # args) =
     (if w = ''--config-expr'' \<or> w = ''-e'' then ConfigOpt v True # config_options args
      else if w = ''--config'' \<or> w = ''-c'' then ConfigOpt v False # config_options args
      else config_options args)"
| "config_options (a # args) = config_options args"

text \<open>
  The fragment that stands for an option: the expression itself, tagged \<open>EXPR\<close>, or
  the contents of the file, tagged \<open>FILE_CONTENTS\<close>; none when the file cannot be read.
\<close>

fun fragment_of :: "file_system \<Rightarrow> ConfigOpt \<Rightarrow> ConfigFragment option" where
  "fragment_of fs (ConfigOpt e True) = Some (EXPR e)"
| "fragment_of fs (ConfigOpt f False) = map_option FILE_CONTENTS (fs f)"

text \<open>The values of the \<^verbatim>\<open>--config-vars\<close> options, in the order given.\<close>

fun config_vars_values :: "arg list \<Rightarrow> string list" where
  "config_vars_values [] = []"
| "config_vars_values (Valued w v # args) =
     (if w = ''--config-vars'' then v # config_vars_values args else config_vars_values args)"
| "config_vars_values (a # args) = config_vars_values args"

fun comma_join :: "string list \<Rightarrow> string" where
  "comma_join [] = []"
| "comma_join [v] = v"
| "comma_join (v # w # ws) = v @ '','' @ comma_join (w # ws)"

text \<open>The positional arguments, in the order given.\<close>

fun positionals :: "arg list \<Rightarrow> string list" where
  "positionals [] = []"
| "positionals (Positional w # args) = w # positionals args"
| "positionals (a # args) = positionals args"

text \<open>
  The output prefix the command line gives: the value of the last \<^verbatim>\<open>-o\<close> or
  \<^verbatim>\<open>--output\<close>, none when there is no such option.
\<close>

fun output_value :: "arg list \<Rightarrow> string option" where
  "output_value [] = None"
| "output_value (Valued w v # args) =
     (case output_value args of
        Some p \<Rightarrow> Some p
      | None \<Rightarrow> if w = ''-o'' \<or> w = ''--output'' then Some v else None)"
| "output_value (a # args) = output_value args"

text \<open>The events that touch a file or the network.\<close>

fun is_io :: "event \<Rightarrow> bool" where
  "is_io (Stdout m) = False"
| "is_io (Stderr m) = False"
| "is_io (File_get_contents file) = True"
| "is_io (File_put_contents file data) = True"
| "is_io (Exchange client request reply) = True"

text \<open>The files an event list writes, in order, each with its contents.\<close>

fun files_written :: "event list \<Rightarrow> (string \<times> string) list" where
  "files_written [] = []"
| "files_written (File_put_contents file data # evs) = (file, data) # files_written evs"
| "files_written (e # evs) = files_written evs"

text \<open>The five blobs of a reply, each with the suffix of its kind, in the order written.\<close>

definition blobs :: "ServerData \<Rightarrow> (string \<times> string) list" where
  "blobs server_data =
     [(''_traj.txt'', getTraj server_data),
      (''_run.txt'', getRunLog server_data),
      (''_probtraj.csv'', getProbTraj server_data),
      (''_statdist.csv'', getStatDist server_data),
      (''_fp.csv'', getFP server_data)]"

subsection \<open>The loop, seen from the grouped command line\<close>

text \<open>The words the loop knows as options.\<close>

definition known_options :: "string list" where
  "known_options =
     [''-version'', ''--version'', ''--host'', ''--port'', ''--config-vars'', ''--config-expr'',
      ''-e'', ''-o'', ''--output'', ''-c'', ''--config'', ''--verbose'', ''--override'',
      ''--augment'', ''--check'', ''--hexfloat'', ''--help'', ''-h'']"

text \<open>How the loop extends \<^verbatim>\<open>config_vars\<close> by one value.\<close>

definition add_var :: "string \<Rightarrow> string \<Rightarrow> string" where
  "add_var c v = (if length c > 0 then c @ '','' else c) @ v"

text \<open>
  The variables \<open>st'\<close> and the events \<open>evs\<close> after the loop has gone, from the
  variables \<open>st\<close>, through the words grouped as \<open>toks\<close> without returning.
\<close>

definition loop_rel :: "options \<Rightarrow> arg list \<Rightarrow> event list \<Rightarrow> options \<Rightarrow> bool" where
  "loop_rel st toks evs st' \<longleftrightarrow>
     runconfig_file_or_expr_v st' = runconfig_file_or_expr_v st @ config_options toks \<and>
     hexfloat st' = (hexfloat st \<or> Switch ''--hexfloat'' \<in> set toks) \<and>
     override st' = (override st \<or> Switch ''--override'' \<in> set toks) \<and>
     augment st' = (augment st \<or> Switch ''--augment'' \<in> set toks) \<and>
     output_prefix st' = (case output_value toks of Some p \<Rightarrow> Some p | None \<Rightarrow> output_prefix st) \<and>
     ctbndl_file st' =
       (case ctbndl_file st of Some f \<Rightarrow> Some f
        | None \<Rightarrow> (case positionals toks of [] \<Rightarrow> None | f # _ \<Rightarrow> Some f)) \<and>
     config_vars st' = foldl add_var (config_vars st) (config_vars_values toks) \<and>
     (\<forall>e \<in> set evs. \<not> is_io e) \<and> Stderr Exclusive_options \<notin> set evs \<and>
     (override st' \<and> augment st' \<longrightarrow> override st \<and> augment st)"

text \<open>
  The files the reply asks for under an output prefix: one for each blob that is not
  empty, named by the prefix and the suffix of the blob's kind.
\<close>

definition expected_files :: "string \<Rightarrow> ServerData \<Rightarrow> (string \<times> string) list" where
  "expected_files prefix server_data =
     map (\<lambda>(suffix, blob). (prefix @ suffix, blob))
       (filter (\<lambda>(suffix, blob). length blob > 0) (blobs server_data))"

subsection \<open>Concrete runs\<close>

text \<open>
  A file system with a network file, a configuration file and an empty file, flag
  constants, and two servers: one answers with a probability-trajectory table and status
  0, the other with a partial run log, status 1 and an error message.
\<close>

definition sample_flags :: DataStreamer where
  "sample_flags = \<lparr>HEXFLOAT_FLAG = 1, OVERRIDE_FLAG = 2, AUGMENT_FLAG = 4\<rparr>"

definition sample_files :: file_system where
  "sample_files = [''net.bnd'' \<mapsto> ''A -> B;'', ''run.cfg'' \<mapsto> ''A=1'', ''empty.bnd'' \<mapsto> []]"

definition good_server :: transport where
  "good_server client request =
     \<lparr>getTraj = [], getRunLog = [], getProbTraj = ''t,A,B'', getStatDist = [], getFP = [],
      getStatus = 0, getErrorMessage = []\<rparr>"

definition failing_server :: transport where
  "failing_server client request =
     \<lparr>getTraj = [], getRunLog = ''partial'', getProbTraj = [], getStatDist = [], getFP = [],
      getStatus = 1, getErrorMessage = ''unknown node C''\<rparr>"

text \<open>
  A command line with a configuration file, a configuration expression, two
  \<^verbatim>\<open>--config-vars\<close> options, two of the three flags and an output prefix.
\<close>

definition full_argv :: "string list" where
  "full_argv =
     [''--port'', ''4291'', ''--config'', ''run.cfg'', ''--config-expr'', ''A=2'',
      ''--config-vars'', ''B=1'', ''--config-vars'', ''C=2'', ''--hexfloat'', ''--override'',
      ''-o'', ''out'', ''net.bnd'']"

section \<open>Properties\<close>

subsection \<open>One round of the loop\<close>

lemma command_line_Cons:
  "command_line (w # rest) =
     (if takes_value w then (case rest of [] \<Rightarrow> [Switch w] | v # ws \<Rightarrow> Valued w v # command_line ws)
      else (if dash w then Switch w else Positional w) # command_line rest)"
  by (cases rest) (auto simp: takes_value_def dash_def)

lemma step_known:
  "step st ''-version'' rest = Stop [Stdout Version_text] 0"
  "step st ''--version'' rest = Stop [Stdout Version_text] 0"
  "step st ''--host'' rest = take_value ''--host'' rest (\<lambda>v. st\<lparr>host := v\<rparr>)"
  "step st ''--port'' rest = take_value ''--port'' rest (\<lambda>v. st\<lparr>port := v\<rparr>)"
  "step st ''--config-vars'' rest =
     take_value ''--config-vars'' rest
       (\<lambda>v. st\<lparr>config_vars :=
                 (if length (config_vars st) > 0 then config_vars st @ '','' else config_vars st) @ v\<rparr>)"
  "step st ''--config-expr'' rest =
     take_value ''--config-expr'' rest
       (\<lambda>v. st\<lparr>runconfig_file_or_expr_v := runconfig_file_or_expr_v st @ [ConfigOpt v True]\<rparr>)"
  "step st ''-e'' rest =
     take_value ''-e'' rest
       (\<lambda>v. st\<lparr>runconfig_file_or_expr_v := runconfig_file_or_expr_v st @ [ConfigOpt v True]\<rparr>)"
  "step st ''-o'' rest = take_value ''-o'' rest (\<lambda>v. st\<lparr>output_prefix := Some v\<rparr>)"
  "step st ''--output'' rest = take_value ''--output'' rest (\<lambda>v. st\<lparr>output_prefix := Some v\<rparr>)"
  "step st ''-c'' rest =
     take_value ''-c'' rest
       (\<lambda>v. st\<lparr>runconfig_file_or_expr_v := runconfig_file_or_expr_v st @ [ConfigOpt v False]\<rparr>)"
  "step st ''--config'' rest =
     take_value ''--config'' rest
       (\<lambda>v. st\<lparr>runconfig_file_or_expr_v := runconfig_file_or_expr_v st @ [ConfigOpt v False]\<rparr>)"
  "step st ''--verbose'' rest = Next [] (st\<lparr>verbose := True\<rparr>) rest"
  "step st ''--override'' rest =
     (if augment st then Stop [Stderr Exclusive_options, Stderr Usage_text] 1
      else Next [] (st\<lparr>override := True\<rparr>) rest)"
  "step st ''--augment'' rest =
     (if override st then Stop [Stderr Exclusive_options, Stderr Usage_text] 1
      else Next [] (st\<lparr>augment := True\<rparr>) rest)"
  "step st ''--check'' rest = Next [] (st\<lparr>check := True\<rparr>) rest"
  "step st ''--hexfloat'' rest = Next [] (st\<lparr>hexfloat := True\<rparr>) rest"
  "step st ''--help'' rest = Stop [Stdout Usage_text, Stdout Options_text] 0"
  "step st ''-h'' rest = Stop [Stdout Usage_text, Stdout Options_text] 0"
  by (simp_all add: step_def dash_def usage_def help_main_def)

lemma step_unknown:
  "dash opt \<Longrightarrow> opt \<notin> set known_options \<Longrightarrow>
   step st opt rest = Stop [Stderr (Unknown_option opt), Stderr Usage_text] 1"
  by (simp add: step_def known_options_def usage_def)

lemma step_positional:
  "\<not> dash opt \<Longrightarrow>
   step st opt rest =
     (case ctbndl_file st of
        None \<Rightarrow> Next [] (st\<lparr>ctbndl_file := Some opt\<rparr>) rest
      | Some f \<Rightarrow> Next [Stderr (Already_set f opt)] st rest)"
  by (simp add: step_def split: option.splits)

lemma not_dash_known: "\<not> dash opt \<Longrightarrow> opt \<notin> set known_options \<and> \<not> takes_value opt"
  by (auto simp: dash_def known_options_def takes_value_def)

lemma unknown_takes_value: "opt \<notin> set known_options \<Longrightarrow> \<not> takes_value opt"
  by (auto simp: known_options_def takes_value_def)

lemma take_value_append:
  "take_value opt r1 f = Next evs st' r1' \<Longrightarrow> take_value opt (r1 @ r2) f = Next evs st' (r1' @ r2)"
  by (cases r1) (auto simp: take_value_def checkArgMissing_def)

lemma step_append:
  assumes "step st opt r1 = Next evs st' r1'"
  shows "step st opt (r1 @ r2) = Next evs st' (r1' @ r2)"
proof -
  consider (pos) "\<not> dash opt" | (unk) "dash opt" "opt \<notin> set known_options"
    | (known) "opt \<in> set known_options" by blast
  then show ?thesis
  proof cases
    case pos
    with assms show ?thesis by (auto simp: step_positional split: option.splits)
  next
    case unk
    with assms show ?thesis by (simp add: step_unknown)
  next
    case known
    with assms show ?thesis
      unfolding known_options_def
      by (auto simp: step_known take_value_append split: if_splits)
  qed
qed


lemma main_loop_append:
  "main_loop st pre = (evs, Inr st') \<Longrightarrow>
   main_loop st (pre @ rest) = (case main_loop st' rest of (evs', r) \<Rightarrow> (evs @ evs', r))"
proof (induction st pre arbitrary: evs rule: main_loop.induct)
  case (1 st)
  then show ?case by (simp split: prod.splits)
next
  case (2 st opt r1)
  show ?case
  proof (cases "step st opt r1")
    case (Stop evs0 code)
    with "2.prems" show ?thesis by simp
  next
    case (Next evs0 st0 r1')
    obtain evs1 where l: "main_loop st0 r1' = (evs1, Inr st')" and e: "evs = evs0 @ evs1"
      using "2.prems" Next by (auto split: prod.splits)
    have "main_loop st0 (r1' @ rest) = (case main_loop st' rest of (evs', r) \<Rightarrow> (evs1 @ evs', r))"
      using "2.IH" [OF Next l] .
    then show ?thesis
      using step_append [OF Next, of rest] e by (simp split: prod.splits)
  qed
qed

lemma take_value_Next:
  "take_value opt rest f = Next evs st' rest' \<Longrightarrow> \<exists>v. rest = v # rest' \<and> st' = f v \<and> evs = []"
  by (cases rest) (auto simp: take_value_def checkArgMissing_def)



lemma take_value_rel:
  assumes "take_value opt rest f = Next evs st' rest'" and "takes_value opt"
    and "\<And>v. loop_rel st [Valued opt v] [] (f v)"
  shows "\<exists>tok. command_line (opt # rest) = tok # command_line rest' \<and> loop_rel st [tok] evs st'"
proof -
  obtain v where "rest = v # rest'" "st' = f v" "evs = []"
    using take_value_Next [OF assms(1)] by blast
  with assms(2,3) show ?thesis by (simp add: command_line_Cons)
qed

lemma switch_rel:
  assumes "\<not> takes_value opt" "dash opt" "loop_rel st [Switch opt] evs st'"
  shows "\<exists>tok. command_line (opt # rest) = tok # command_line rest \<and> loop_rel st [tok] evs st'"
  using assms by (simp add: command_line_Cons)


lemma step_Next:
  assumes "step st opt rest = Next evs st' rest'"
  shows "\<exists>tok. command_line (opt # rest) = tok # command_line rest' \<and> loop_rel st [tok] evs st'"
proof -
  consider (pos) "\<not> dash opt" | (unk) "dash opt" "opt \<notin> set known_options"
    | (known) "opt \<in> set known_options" by blast
  then show ?thesis
  proof cases
    case pos
    with assms not_dash_known [OF pos] show ?thesis
      by (auto simp: step_positional command_line_Cons loop_rel_def split: option.splits)
  next
    case unk
    with assms show ?thesis by (simp add: step_unknown)
  next
    case known
    then have "opt = ''-version'' \<or> opt = ''--version'' \<or> opt = ''--host'' \<or> opt = ''--port'' \<or>
      opt = ''--config-vars'' \<or> opt = ''--config-expr'' \<or> opt = ''-e'' \<or> opt = ''-o'' \<or>
      opt = ''--output'' \<or> opt = ''-c'' \<or> opt = ''--config'' \<or> opt = ''--verbose'' \<or>
      opt = ''--override'' \<or> opt = ''--augment'' \<or> opt = ''--check'' \<or> opt = ''--hexfloat'' \<or>
      opt = ''--help'' \<or> opt = ''-h''"
      by (simp add: known_options_def)
    with assms show ?thesis
      by - (elim disjE; simp add: step_known split: if_splits;
          (erule take_value_rel | rule switch_rel);
          auto simp add: takes_value_def dash_def loop_rel_def add_var_def split: option.splits)
  qed
qed


subsection \<open>The whole loop\<close>

lemma config_options_Cons: "config_options (tok # toks) = config_options [tok] @ config_options toks"
  by (cases tok) simp_all

lemma output_value_Cons:
  "output_value (tok # toks) =
     (case output_value toks of Some p \<Rightarrow> Some p | None \<Rightarrow> output_value [tok])"
  by (cases tok) (simp_all split: option.splits)

lemma positionals_Cons: "positionals (tok # toks) = positionals [tok] @ positionals toks"
  by (cases tok) simp_all

lemma config_vars_values_Cons:
  "config_vars_values (tok # toks) = config_vars_values [tok] @ config_vars_values toks"
  by (cases tok) simp_all

lemma loop_rel_Nil: "loop_rel st [] [] st"
  by (simp add: loop_rel_def split: option.splits)

lemma loop_relD:
  assumes "loop_rel st toks evs st'"
  shows "runconfig_file_or_expr_v st' = runconfig_file_or_expr_v st @ config_options toks"
    and "hexfloat st' = (hexfloat st \<or> Switch ''--hexfloat'' \<in> set toks)"
    and "override st' = (override st \<or> Switch ''--override'' \<in> set toks)"
    and "augment st' = (augment st \<or> Switch ''--augment'' \<in> set toks)"
    and "output_prefix st' = (case output_value toks of Some p \<Rightarrow> Some p | None \<Rightarrow> output_prefix st)"
    and "ctbndl_file st' =
       (case ctbndl_file st of Some f \<Rightarrow> Some f
        | None \<Rightarrow> (case positionals toks of [] \<Rightarrow> None | f # _ \<Rightarrow> Some f))"
    and "config_vars st' = foldl add_var (config_vars st) (config_vars_values toks)"
    and "\<forall>e \<in> set evs. \<not> is_io e"
    and "Stderr Exclusive_options \<notin> set evs"
    and "override st' \<and> augment st' \<longrightarrow> override st \<and> augment st"
  using assms unfolding loop_rel_def by blast+

lemma loop_rel_Cons:
  assumes a: "loop_rel st [tok] evs0 st0" and b: "loop_rel st0 toks evs1 st'"
  shows "loop_rel st (tok # toks) (evs0 @ evs1) st'"
proof -
  have 1: "runconfig_file_or_expr_v st' = runconfig_file_or_expr_v st @ config_options (tok # toks)"
    using loop_relD(1) [OF a] loop_relD(1) [OF b] by (subst config_options_Cons) simp
  have 2: "hexfloat st' = (hexfloat st \<or> Switch ''--hexfloat'' \<in> set (tok # toks))"
    using loop_relD(2) [OF a] loop_relD(2) [OF b] by (simp only: set_simps insert_iff empty_iff) blast
  have 3: "override st' = (override st \<or> Switch ''--override'' \<in> set (tok # toks))"
    using loop_relD(3) [OF a] loop_relD(3) [OF b] by (simp only: set_simps insert_iff empty_iff) blast
  have 4: "augment st' = (augment st \<or> Switch ''--augment'' \<in> set (tok # toks))"
    using loop_relD(4) [OF a] loop_relD(4) [OF b] by (simp only: set_simps insert_iff empty_iff) blast
  have 5: "output_prefix st' =
      (case output_value (tok # toks) of Some p \<Rightarrow> Some p | None \<Rightarrow> output_prefix st)"
    using loop_relD(5) [OF a] loop_relD(5) [OF b]
    by (subst output_value_Cons) (simp split: option.splits)
  have 6: "ctbndl_file st' =
       (case ctbndl_file st of Some f \<Rightarrow> Some f
        | None \<Rightarrow> (case positionals (tok # toks) of [] \<Rightarrow> None | f # _ \<Rightarrow> Some f))"
    using loop_relD(6) [OF a] loop_relD(6) [OF b]
    by (subst positionals_Cons) (simp split: option.splits list.splits)
  have 7: "config_vars st' = foldl add_var (config_vars st) (config_vars_values (tok # toks))"
    using loop_relD(7) [OF a] loop_relD(7) [OF b] by (subst config_vars_values_Cons) simp
  have 8: "\<forall>e \<in> set (evs0 @ evs1). \<not> is_io e"
    using loop_relD(8) [OF a] loop_relD(8) [OF b] by auto
  have 9: "Stderr Exclusive_options \<notin> set (evs0 @ evs1)"
    using loop_relD(9) [OF a] loop_relD(9) [OF b] by simp
  have 10: "override st' \<and> augment st' \<longrightarrow> override st \<and> augment st"
    using loop_relD(10) [OF a] loop_relD(10) [OF b] by blast
  show ?thesis
    unfolding loop_rel_def by (intro conjI 1 2 3 4 5 6 7 8 9 10)
qed

lemma main_loop_rel:
  "main_loop st argv = (evs, Inr st') \<Longrightarrow> loop_rel st (command_line argv) evs st'"
proof (induction st argv arbitrary: evs rule: main_loop.induct)
  case (1 st)
  then show ?case by (simp add: loop_rel_Nil)
next
  case (2 st opt rest)
  show ?case
  proof (cases "step st opt rest")
    case (Stop evs0 code)
    with "2.prems" show ?thesis by simp
  next
    case (Next evs0 st0 rest')
    obtain evs1 where l: "main_loop st0 rest' = (evs1, Inr st')" and e: "evs = evs0 @ evs1"
      using "2.prems" Next by (auto split: prod.splits)
    obtain tok where t: "command_line (opt # rest) = tok # command_line rest'"
      and r: "loop_rel st [tok] evs0 st0"
      using step_Next [OF Next] by blast
    show ?thesis
      unfolding t e using r "2.IH" [OF Next l] by (rule loop_rel_Cons)
  qed
qed


subsection \<open>The comma-join\<close>

lemma add_var_simps:
  "add_var [] v = v"
  "c \<noteq> [] \<Longrightarrow> add_var c v = c @ '','' @ v"
  by (simp_all add: add_var_def)

lemma comma_join_Cons: "comma_join (v # vs) = v @ (if vs = [] then [] else '','' @ comma_join vs)"
  by (cases vs) simp_all

lemma add_var_nonempty: "c \<noteq> [] \<Longrightarrow> foldl add_var c vs = comma_join (c # vs)"
proof (induction vs arbitrary: c)
  case Nil
  then show ?case by simp
next
  case (Cons v vs)
  have "foldl add_var (c @ '','' @ v) vs = comma_join ((c @ '','' @ v) # vs)"
    by (rule Cons.IH) simp
  then show ?case
    using Cons.prems by (simp add: add_var_simps comma_join_Cons [of _ vs])
qed

lemma add_var_join: "foldl add_var [] vs = comma_join (dropWhile (\<lambda>v. v = []) vs)"
proof (induction vs)
  case Nil
  then show ?case by simp
next
  case (Cons v vs)
  show ?case
  proof (cases "v = []")
    case True
    with Cons show ?thesis by (simp add: add_var_simps)
  next
    case False
    then show ?thesis using add_var_nonempty [of v vs] by (simp add: add_var_simps)
  qed
qed


subsection \<open>Early returns\<close>

lemma take_value_Stop:
  "take_value opt rest f = Stop evs code \<Longrightarrow>
   evs = [Stderr (Missing_value opt), Stderr Usage_text] \<and> code = 1 \<and> rest = []"
  by (cases rest) (auto simp: take_value_def checkArgMissing_def usage_def)

lemma step_Stop:
  assumes "step st opt rest = Stop evs code"
  shows "(\<forall>e \<in> set evs. \<not> is_io e) \<and>
    (Stderr Exclusive_options \<in> set evs \<longrightarrow>
       (opt = ''--override'' \<and> augment st) \<or> (opt = ''--augment'' \<and> override st))"
proof -
  consider (pos) "\<not> dash opt" | (unk) "dash opt" "opt \<notin> set known_options"
    | (known) "opt \<in> set known_options" by blast
  then show ?thesis
  proof cases
    case pos
    with assms show ?thesis by (simp add: step_positional split: option.splits)
  next
    case unk
    with assms show ?thesis by (auto simp: step_unknown)
  next
    case known
    then have "opt = ''-version'' \<or> opt = ''--version'' \<or> opt = ''--host'' \<or> opt = ''--port'' \<or>
      opt = ''--config-vars'' \<or> opt = ''--config-expr'' \<or> opt = ''-e'' \<or> opt = ''-o'' \<or>
      opt = ''--output'' \<or> opt = ''-c'' \<or> opt = ''--config'' \<or> opt = ''--verbose'' \<or>
      opt = ''--override'' \<or> opt = ''--augment'' \<or> opt = ''--check'' \<or> opt = ''--hexfloat'' \<or>
      opt = ''--help'' \<or> opt = ''-h''"
      by (simp add: known_options_def)
    with assms show ?thesis
      by - (elim disjE; simp add: step_known split: if_splits;
          (drule take_value_Stop)?; auto)
  qed
qed

lemma main_loop_no_io: "main_loop st argv = (evs, r) \<Longrightarrow> \<forall>e \<in> set evs. \<not> is_io e"
proof (induction st argv arbitrary: evs r rule: main_loop.induct)
  case (1 st)
  then show ?case by simp
next
  case (2 st opt rest)
  show ?case
  proof (cases "step st opt rest")
    case (Stop evs0 code)
    with "2.prems" step_Stop [OF Stop] show ?thesis by simp
  next
    case (Next evs0 st0 rest')
    obtain evs1 where l: "main_loop st0 rest' = (evs1, r)" and e: "evs = evs0 @ evs1"
      using "2.prems" Next by (auto split: prod.splits)
    obtain tok where "loop_rel st [tok] evs0 st0"
      using step_Next [OF Next] by blast
    then have "\<forall>e \<in> set evs0. \<not> is_io e" by (rule loop_relD)
    with "2.IH" [OF Next l] e show ?thesis by auto
  qed
qed

lemma main_loop_exclusive:
  "main_loop st argv = (evs, r) \<Longrightarrow> Stderr Exclusive_options \<in> set evs \<Longrightarrow>
   (override st \<or> Switch ''--override'' \<in> set (command_line argv)) \<and>
   (augment st \<or> Switch ''--augment'' \<in> set (command_line argv))"
proof (induction st argv arbitrary: evs r rule: main_loop.induct)
  case (1 st)
  then show ?case by simp
next
  case (2 st opt rest)
  show ?case
  proof (cases "step st opt rest")
    case (Stop evs0 code)
    with "2.prems" have "Stderr Exclusive_options \<in> set evs0" by simp
    with step_Stop [OF Stop]
    have "(opt = ''--override'' \<and> augment st) \<or> (opt = ''--augment'' \<and> override st)" by blast
    moreover have "command_line (''--override'' # rest) = Switch ''--override'' # command_line rest"
      "command_line (''--augment'' # rest) = Switch ''--augment'' # command_line rest"
      by (simp_all add: command_line_Cons takes_value_def dash_def)
    ultimately show ?thesis
      by (elim disjE conjE) (simp_all only: list.set insert_iff simp_thms)
  next
    case (Next evs0 st0 rest')
    obtain evs1 where l: "main_loop st0 rest' = (evs1, r)" and e: "evs = evs0 @ evs1"
      using "2.prems" Next by (auto split: prod.splits)
    obtain tok where t: "command_line (opt # rest) = tok # command_line rest'"
      and rel: "loop_rel st [tok] evs0 st0"
      using step_Next [OF Next] by blast
    have "Stderr Exclusive_options \<in> set evs1"
      using "2.prems"(2) e loop_relD(9) [OF rel] by simp
    from "2.IH" [OF Next l this] loop_relD(3) [OF rel] loop_relD(4) [OF rel]
    show ?thesis unfolding t by (simp only: list.set insert_iff empty_iff) blast
  qed
qed

subsection \<open>From the loop to the exit code\<close>

lemma add_configs_result:
  "add_configs fs cd cfgs = (evs, Inr cd') \<Longrightarrow>
   \<exists>frs. cd' = cd\<lparr>fragments := fragments cd @ frs\<rparr> \<and> map Some frs = map (fragment_of fs) cfgs"
proof (induction cfgs arbitrary: cd evs)
  case Nil
  then show ?case by simp
next
  case (Cons cfg cfgs)
  obtain v b where cfg: "cfg = ConfigOpt v b" by (cases cfg)
  show ?case
  proof (cases b)
    case True
    with Cons.prems cfg have "add_configs fs (addConfigExpr v cd) cfgs = (evs, Inr cd')" by simp
    from Cons.IH [OF this] obtain frs where
      "cd' = (addConfigExpr v cd)\<lparr>fragments := fragments (addConfigExpr v cd) @ frs\<rparr>"
      "map Some frs = map (fragment_of fs) cfgs" by blast
    then show ?thesis
      using cfg True by (intro exI [of _ "EXPR v # frs"]) (simp add: addConfigExpr_def)
  next
    case False
    with Cons.prems cfg obtain contents evs1 where c: "fs v = Some contents"
      and r: "add_configs fs (addConfig contents cd) cfgs = (evs1, Inr cd')"
      by (auto simp: fileGetContents_def split: option.splits prod.splits)
    from Cons.IH [OF r] obtain frs where
      "cd' = (addConfig contents cd)\<lparr>fragments := fragments (addConfig contents cd) @ frs\<rparr>"
      "map Some frs = map (fragment_of fs) cfgs" by blast
    then show ?thesis
      using cfg False c
      by (intro exI [of _ "FILE_CONTENTS contents # frs"]) (simp add: addConfig_def)
  qed
qed

lemma add_configs_events:
  "add_configs fs cd cfgs = (evs, r) \<Longrightarrow> \<forall>e \<in> set evs. \<exists>file. e = File_get_contents file"
proof (induction cfgs arbitrary: cd evs)
  case Nil
  then show ?case by simp
next
  case (Cons cfg cfgs)
  then show ?case
    by (auto split: if_splits option.splits prod.splits)
qed

lemma build_request_events:
  assumes "build_request K fs st = (evs, r)"
  shows "\<forall>e \<in> set evs. (\<exists>file. e = File_get_contents file) \<or> (\<exists>m. e = Stderr m)"
proof -
  have "\<forall>e \<in> set evs'. \<exists>file. e = File_get_contents file"
    if "add_configs fs cd cfgs = (evs', r')" for cd cfgs evs' r'
    using that by (rule add_configs_events)
  then show ?thesis
    using assms unfolding build_request_def usage_def
    by (fastforce split: option.splits if_splits prod.splits sum.splits)
qed

lemma build_request_result:
  assumes "build_request K fs st = (evs, Inr request)"
  shows "\<exists>file contents frs. ctbndl_file st = Some file \<and> port st \<noteq> [] \<and> fs file = Some contents \<and>
     map Some frs = map (fragment_of fs) (runconfig_file_or_expr_v st) \<and>
     request = \<lparr>network = contents, fragments = frs, variableOverrides = config_vars st,
       command = (if check st then CHECK_COMMAND else RUN_COMMAND), flags = flags_word K st\<rparr>"
proof -
  obtain path contents evs1 cd where f: "ctbndl_file st = Some path" and p: "port st \<noteq> []"
    and c: "fs path = Some contents"
    and a: "add_configs fs (setNetwork contents ClientData_new) (runconfig_file_or_expr_v st) = (evs1, Inr cd)"
    and r: "request = setFlags (flags_word K st)
              (setCommand (if check st then CHECK_COMMAND else RUN_COMMAND)
                (setConfigVars (config_vars st) cd))"
    using assms
    by (auto simp: build_request_def fileGetContents_def
        split: option.splits if_splits prod.splits sum.splits)
  from add_configs_result [OF a] obtain frs where
    "cd = (setNetwork contents ClientData_new)\<lparr>fragments := fragments (setNetwork contents ClientData_new) @ frs\<rparr>"
    "map Some frs = map (fragment_of fs) (runconfig_file_or_expr_v st)" by blast
  with f p c r show ?thesis
    by (simp add: setNetwork_def ClientData_new_def setFlags_def setCommand_def setConfigVars_def)
qed


lemma files_written_append: "files_written (xs @ ys) = files_written xs @ files_written ys"
  by (induction xs rule: files_written.induct) simp_all

lemma files_written_none:
  "\<forall>e \<in> set evs. \<forall>file data. e \<noteq> File_put_contents file data \<Longrightarrow> files_written evs = []"
  by (induction evs rule: files_written.induct) simp_all

lemma write_outputs_Some:
  "write_outputs (Some prefix) reply =
     Some (map (\<lambda>(file, data). File_put_contents file data) (expected_files prefix reply))"
  by (simp add: write_outputs_def put_blob_def seq_def blobs_def std_string_def
      filePutContents_def expected_files_def)

lemma write_outputs_None:
  "write_outputs None reply =
     (if \<exists>(suffix, blob) \<in> set (blobs reply). length blob > 0 then None else Some [])"
  by (simp add: write_outputs_def put_blob_def seq_def blobs_def std_string_def)

lemma files_written_puts:
  "files_written (map (\<lambda>(file, data). File_put_contents file data) fds) = fds"
  by (induction fds) auto

lemma main_exchange:
  assumes "Exchange client request reply \<in> set (fst (main K fs send argv))"
  shows "\<exists>evs st evs'. main_loop initial argv = (evs, Inr st) \<and>
      build_request K fs st = (evs', Inr request) \<and>
      client = Client (host st) (port st) (verbose st) \<and> reply = send client request \<and>
      main K fs send argv =
        (case write_outputs (output_prefix st) reply of
           None \<Rightarrow> (evs @ evs' @ [Exchange client request reply], Undefined)
         | Some written \<Rightarrow>
             (evs @ evs' @ [Exchange client request reply] @ written @ fst (report reply),
              snd (report reply)))"
proof -
  obtain evs r where l: "main_loop initial argv = (evs, r)" by (cases "main_loop initial argv")
  have no1: "Exchange client request reply \<notin> set evs"
    using main_loop_no_io [OF l] by auto
  show ?thesis
  proof (cases r)
    case (Inl code)
    with assms l no1 show ?thesis by (simp add: main_def)
  next
    case (Inr st)
    obtain evs' r' where b: "build_request K fs st = (evs', r')"
      by (cases "build_request K fs st")
    have no2: "Exchange client request reply \<notin> set evs'"
      using build_request_events [OF b] by auto
    show ?thesis
    proof (cases r')
      case (Inl code)
      with assms l Inr b no1 no2 show ?thesis by (simp add: main_def)
    next
      case req: (Inr request')
      let ?client = "Client (host st) (port st) (verbose st)"
      let ?reply = "send ?client request'"
      have no3: "Exchange client request reply \<notin> set written"
        if "write_outputs (output_prefix st) ?reply = Some written" for written
        using that by (cases "output_prefix st")
          (auto simp: write_outputs_Some write_outputs_None split: if_splits)
      have no4: "Exchange client request reply \<notin> set (fst (report ?reply))"
        by (simp add: report_def)
      have "Exchange client request reply = Exchange ?client request' ?reply"
        using assms l Inr b req no1 no2 no3 no4
        by (auto simp: main_def Let_def split: option.splits)
      with l Inr b req show ?thesis
        by (simp add: main_def Let_def split: option.splits)
    qed
  qed
qed


lemma main_loop_initial:
  assumes "main_loop initial argv = (evs, Inr st)"
  shows "runconfig_file_or_expr_v st = config_options (command_line argv)"
    and "hexfloat st = (Switch ''--hexfloat'' \<in> set (command_line argv))"
    and "override st = (Switch ''--override'' \<in> set (command_line argv))"
    and "augment st = (Switch ''--augment'' \<in> set (command_line argv))"
    and "output_prefix st = output_value (command_line argv)"
    and "ctbndl_file st = (case positionals (command_line argv) of [] \<Rightarrow> None | f # _ \<Rightarrow> Some f)"
    and "config_vars st =
           comma_join (dropWhile (\<lambda>v. v = []) (config_vars_values (command_line argv)))"
    and "\<not> (override st \<and> augment st)"
  using loop_relD [OF main_loop_rel [OF assms]]
  by (simp_all add: initial_def add_var_join split: option.splits)

lemma main_files_written:
  assumes "Exchange client request reply \<in> set (fst (main K fs send argv))"
    and "output_value (command_line argv) = Some prefix"
  shows "main K fs send argv =
           (fst (main K fs send argv), Returned (if getStatus reply = 0 then 0 else 1))"
    and "files_written (fst (main K fs send argv)) = expected_files prefix reply"
    and "getStatus reply \<noteq> 0 \<Longrightarrow>
           last (fst (main K fs send argv)) =
             Stderr (Server_error (getErrorMessage reply) (getStatus reply))"
proof -
  from main_exchange [OF assms(1)] obtain evs st evs' where
    l: "main_loop initial argv = (evs, Inr st)" and b: "build_request K fs st = (evs', Inr request)"
    and m: "main K fs send argv =
        (case write_outputs (output_prefix st) reply of
           None \<Rightarrow> (evs @ evs' @ [Exchange client request reply], Undefined)
         | Some written \<Rightarrow>
             (evs @ evs' @ [Exchange client request reply] @ written @ fst (report reply),
              snd (report reply)))"
    by blast
  have o: "output_prefix st = Some prefix"
    using main_loop_initial(5) [OF l] assms(2) by simp
  have m': "main K fs send argv =
     (evs @ evs' @ [Exchange client request reply] @
        map (\<lambda>(file, data). File_put_contents file data) (expected_files prefix reply) @
        fst (report reply), snd (report reply))"
    using m o by (simp add: write_outputs_Some)
  show "main K fs send argv =
           (fst (main K fs send argv), Returned (if getStatus reply = 0 then 0 else 1))"
    unfolding m' by (simp add: report_def)
  have "files_written evs = []"
    using main_loop_no_io [OF l] by (intro files_written_none) auto
  moreover have "files_written evs' = []"
    using build_request_events [OF b] by (intro files_written_none) auto
  moreover have "files_written (fst (report reply)) = []"
    by (simp add: report_def)
  ultimately show "files_written (fst (main K fs send argv)) = expected_files prefix reply"
    unfolding m' by (simp add: files_written_append files_written_puts)
  show "last (fst (main K fs send argv)) =
             Stderr (Server_error (getErrorMessage reply) (getStatus reply))"
    if "getStatus reply \<noteq> 0"
    unfolding m' using that by (simp add: report_def)
qed

subsection \<open>The request\<close>

text \<open>
  Claim C3. In every run that reaches the exchange with the server, the fragment list of
  the request has exactly one fragment for each \<^verbatim>\<open>--config\<close> (\<^verbatim>\<open>-c\<close>) and
  \<^verbatim>\<open>--config-expr\<close> (\<^verbatim>\<open>-e\<close>) option of the command line, in the order of the
  options: the contents of the file, tagged \<open>FILE_CONTENTS\<close>, for the former and the
  expression, tagged \<open>EXPR\<close>, for the latter.
\<close>

theorem fragments_follow_options:
  assumes "Exchange client request reply \<in> set (fst (main K fs send argv))"
  shows "map Some (fragments request) = map (fragment_of fs) (config_options (command_line argv))"
proof -
  from main_exchange [OF assms] obtain evs st evs' where
    l: "main_loop initial argv = (evs, Inr st)" and b: "build_request K fs st = (evs', Inr request)"
    by blast
  from build_request_result [OF b] have
    "map Some (fragments request) = map (fragment_of fs) (runconfig_file_or_expr_v st)"
    by auto
  then show ?thesis
    by (simp only: main_loop_initial(1) [OF l])
qed

lemma full_run: "main sample_flags sample_files good_server full_argv =
  ([File_get_contents ''net.bnd'', File_get_contents ''run.cfg'',
    Exchange (Client [] ''4291'' False)
      \<lparr>network = ''A -> B;'', fragments = [FILE_CONTENTS ''A=1'', EXPR ''A=2''],
       variableOverrides = ''B=1,C=2'', command = RUN_COMMAND, flags = 3\<rparr>
      \<lparr>getTraj = [], getRunLog = [], getProbTraj = ''t,A,B'', getStatDist = [], getFP = [],
       getStatus = 0, getErrorMessage = []\<rparr>,
    File_put_contents ''out_probtraj.csv'' ''t,A,B''], Returned 0)"
  by code_simp

theorem fragments_follow_options_witness:
  "Exchange (Client [] ''4291'' False)
      \<lparr>network = ''A -> B;'', fragments = [FILE_CONTENTS ''A=1'', EXPR ''A=2''],
       variableOverrides = ''B=1,C=2'', command = RUN_COMMAND, flags = 3\<rparr>
      \<lparr>getTraj = [], getRunLog = [], getProbTraj = ''t,A,B'', getStatDist = [], getFP = [],
       getStatus = 0, getErrorMessage = []\<rparr>
     \<in> set (fst (main sample_flags sample_files good_server full_argv)) \<and>
   map (fragment_of sample_files) (config_options (command_line full_argv)) =
     [Some (FILE_CONTENTS ''A=1''), Some (EXPR ''A=2'')]"
proof -
  have h: "Exchange (Client [] ''4291'' False)
      \<lparr>network = ''A -> B;'', fragments = [FILE_CONTENTS ''A=1'', EXPR ''A=2''],
       variableOverrides = ''B=1,C=2'', command = RUN_COMMAND, flags = 3\<rparr>
      \<lparr>getTraj = [], getRunLog = [], getProbTraj = ''t,A,B'', getStatDist = [], getFP = [],
       getStatus = 0, getErrorMessage = []\<rparr>
     \<in> set (fst (main sample_flags sample_files good_server full_argv))"
    by (simp add: full_run)
  from fragments_follow_options [OF h] h show ?thesis by simp
qed

text \<open>
  What the loop makes of the \<^verbatim>\<open>--config-vars\<close> values: the request of every run that
  reaches the exchange carries the string that \<open>add_var\<close> has built from them, which
  is their comma-join whenever none of them is empty.
\<close>

lemma config_vars_sent:
  assumes "Exchange client request reply \<in> set (fst (main K fs send argv))"
  shows "variableOverrides request =
           foldl add_var [] (config_vars_values (command_line argv))"
proof -
  from main_exchange [OF assms] obtain evs st evs' where
    l: "main_loop initial argv = (evs, Inr st)" and b: "build_request K fs st = (evs', Inr request)"
    by blast
  from build_request_result [OF b] have "variableOverrides request = config_vars st"
    by auto
  also have "\<dots> = foldl add_var (config_vars initial) (config_vars_values (command_line argv))"
    by (rule loop_relD(7) [OF main_loop_rel [OF l]])
  finally show ?thesis by (simp add: initial_def)
qed

lemma config_vars_comma_join:
  assumes "Exchange client request reply \<in> set (fst (main K fs send argv))"
    and "[] \<notin> set (config_vars_values (command_line argv))"
  shows "variableOverrides request = comma_join (config_vars_values (command_line argv))"
proof -
  have "dropWhile (\<lambda>v. v = []) (config_vars_values (command_line argv)) =
      config_vars_values (command_line argv)"
    using assms(2) by (cases "config_vars_values (command_line argv)") auto
  with config_vars_sent [OF assms(1)] show ?thesis
    by (simp add: add_var_join)
qed




lemma no_other_bits:
  fixes h o' a :: "64 word"
  shows "((if p then h else 0) OR (if q then o' else 0) OR (if r then a else 0))
           AND NOT (h OR o' OR a) = 0"
  by (auto simp: bit_eq_iff bit_simps)

text \<open>
  Claim C7. In every run that reaches the exchange, the flags word of the request is the
  bitwise OR of \<open>HEXFLOAT_FLAG\<close>, \<open>OVERRIDE_FLAG\<close> and \<open>AUGMENT_FLAG\<close>, each taken
  exactly when its switch (\<^verbatim>\<open>--hexfloat\<close>, \<^verbatim>\<open>--override\<close>, \<^verbatim>\<open>--augment\<close>) is
  on the command line; no bit outside the three constants is set.
\<close>

theorem flags_of_switches:
  assumes "Exchange client request reply \<in> set (fst (main K fs send argv))"
  shows "flags request =
           (if Switch ''--hexfloat'' \<in> set (command_line argv) then HEXFLOAT_FLAG K else 0) OR
           (if Switch ''--override'' \<in> set (command_line argv) then OVERRIDE_FLAG K else 0) OR
           (if Switch ''--augment'' \<in> set (command_line argv) then AUGMENT_FLAG K else 0) \<and>
         flags request AND NOT (HEXFLOAT_FLAG K OR OVERRIDE_FLAG K OR AUGMENT_FLAG K) = 0"
proof -
  from main_exchange [OF assms] obtain evs st evs' where
    l: "main_loop initial argv = (evs, Inr st)" and b: "build_request K fs st = (evs', Inr request)"
    by blast
  from build_request_result [OF b] have "flags request = flags_word K st" by auto
  also have "\<dots> = (if hexfloat st then HEXFLOAT_FLAG K else 0) OR
      (if override st then OVERRIDE_FLAG K else 0) OR (if augment st then AUGMENT_FLAG K else 0)"
    by (simp add: flags_word_def or.assoc)
  finally have f: "flags request =
           (if Switch ''--hexfloat'' \<in> set (command_line argv) then HEXFLOAT_FLAG K else 0) OR
           (if Switch ''--override'' \<in> set (command_line argv) then OVERRIDE_FLAG K else 0) OR
           (if Switch ''--augment'' \<in> set (command_line argv) then AUGMENT_FLAG K else 0)"
    unfolding main_loop_initial(2,3,4) [OF l] .
  show ?thesis
    by (rule conjI [OF f]) (simp only: f no_other_bits)
qed

theorem flags_of_switches_witness:
  "Exchange (Client [] ''4291'' False)
      \<lparr>network = ''A -> B;'', fragments = [FILE_CONTENTS ''A=1'', EXPR ''A=2''],
       variableOverrides = ''B=1,C=2'', command = RUN_COMMAND, flags = 3\<rparr>
      \<lparr>getTraj = [], getRunLog = [], getProbTraj = ''t,A,B'', getStatDist = [], getFP = [],
       getStatus = 0, getErrorMessage = []\<rparr>
     \<in> set (fst (main sample_flags sample_files good_server full_argv)) \<and>
   (3 :: 64 word) =
     (if Switch ''--hexfloat'' \<in> set (command_line full_argv) then HEXFLOAT_FLAG sample_flags else 0) OR
     (if Switch ''--override'' \<in> set (command_line full_argv) then OVERRIDE_FLAG sample_flags else 0) OR
     (if Switch ''--augment'' \<in> set (command_line full_argv) then AUGMENT_FLAG sample_flags else 0)"
proof -
  have h: "Exchange (Client [] ''4291'' False)
      \<lparr>network = ''A -> B;'', fragments = [FILE_CONTENTS ''A=1'', EXPR ''A=2''],
       variableOverrides = ''B=1,C=2'', command = RUN_COMMAND, flags = 3\<rparr>
      \<lparr>getTraj = [], getRunLog = [], getProbTraj = ''t,A,B'', getStatDist = [], getFP = [],
       getStatus = 0, getErrorMessage = []\<rparr>
     \<in> set (fst (main sample_flags sample_files good_server full_argv))"
    by (simp add: full_run)
  from flags_of_switches [OF h, THEN conjunct1] h show ?thesis
    by (simp only: ClientData.simps simp_thms)
qed

subsection \<open>The reply\<close>

text \<open>
  Claim C5. In every run that reaches the exchange and has an output prefix, the files
  written are exactly the blobs of the reply that are not empty, each once, in the order
  trajectory, run log, probability trajectory, stationary distribution, fixed point, each
  under the prefix followed by the suffix of its kind (\<^verbatim>\<open>_traj.txt\<close>, \<^verbatim>\<open>_run.txt\<close>,
  \<^verbatim>\<open>_probtraj.csv\<close>, \<^verbatim>\<open>_statdist.csv\<close>, \<^verbatim>\<open>_fp.csv\<close>) and holding the blob; an
  empty blob gives no file.
\<close>

theorem blobs_written_when_not_empty:
  assumes "Exchange client request reply \<in> set (fst (main K fs send argv))"
    and "output_value (command_line argv) = Some prefix"
  shows "files_written (fst (main K fs send argv)) =
           map (\<lambda>(suffix, blob). (prefix @ suffix, blob))
             (filter (\<lambda>(suffix, blob). length blob > 0)
               [(''_traj.txt'', getTraj reply), (''_run.txt'', getRunLog reply),
                (''_probtraj.csv'', getProbTraj reply), (''_statdist.csv'', getStatDist reply),
                (''_fp.csv'', getFP reply)])"
  using main_files_written(2) [OF assms] by (simp only: expected_files_def blobs_def)

theorem blobs_written_when_not_empty_witness:
  "Exchange (Client [] ''4291'' False)
      \<lparr>network = ''A -> B;'', fragments = [FILE_CONTENTS ''A=1'', EXPR ''A=2''],
       variableOverrides = ''B=1,C=2'', command = RUN_COMMAND, flags = 3\<rparr>
      \<lparr>getTraj = [], getRunLog = [], getProbTraj = ''t,A,B'', getStatDist = [], getFP = [],
       getStatus = 0, getErrorMessage = []\<rparr>
     \<in> set (fst (main sample_flags sample_files good_server full_argv)) \<and>
   output_value (command_line full_argv) = Some ''out'' \<and>
   files_written (fst (main sample_flags sample_files good_server full_argv)) =
     [(''out_probtraj.csv'', ''t,A,B'')]"
proof -
  have h: "Exchange (Client [] ''4291'' False)
      \<lparr>network = ''A -> B;'', fragments = [FILE_CONTENTS ''A=1'', EXPR ''A=2''],
       variableOverrides = ''B=1,C=2'', command = RUN_COMMAND, flags = 3\<rparr>
      \<lparr>getTraj = [], getRunLog = [], getProbTraj = ''t,A,B'', getStatDist = [], getFP = [],
       getStatus = 0, getErrorMessage = []\<rparr>
     \<in> set (fst (main sample_flags sample_files good_server full_argv))"
    by (simp add: full_run)
  have p: "output_value (command_line full_argv) = Some ''out''"
    by code_simp
  from blobs_written_when_not_empty [OF h p] h p show ?thesis by simp
qed

text \<open>
  Claim C1, as the code has it. The five blobs are written before the status is looked
  at. In every run that reaches the exchange with an output prefix and gets a reply whose
  status is not zero, the client writes one file for each blob of the reply that is not
  empty (none when all five are empty); after that it prints the error message of the
  reply with the status on the standard error, as the last thing it does, and returns
  the exit code 1.
\<close>

theorem failed_reply_still_written:
  assumes "Exchange client request reply \<in> set (fst (main K fs send argv))"
    and "getStatus reply \<noteq> 0"
    and "output_value (command_line argv) = Some prefix"
  shows "files_written (fst (main K fs send argv)) = expected_files prefix reply \<and>
         snd (main K fs send argv) = Returned 1 \<and>
         last (fst (main K fs send argv)) =
           Stderr (Server_error (getErrorMessage reply) (getStatus reply))"
proof -
  have "snd (main K fs send argv) = Returned 1"
    using assms(2) by (subst main_files_written(1) [OF assms(1,3)]) simp
  with main_files_written(2) [OF assms(1,3)] main_files_written(3) [OF assms(1,3,2)]
  show ?thesis by simp
qed

lemma failing_run:
  "main sample_flags sample_files failing_server [''--port'', ''4291'', ''-o'', ''out'', ''net.bnd''] =
   ([File_get_contents ''net.bnd'',
     Exchange (Client [] ''4291'' False)
       \<lparr>network = ''A -> B;'', fragments = [], variableOverrides = [],
        command = RUN_COMMAND, flags = 0\<rparr>
       \<lparr>getTraj = [], getRunLog = ''partial'', getProbTraj = [], getStatDist = [], getFP = [],
        getStatus = 1, getErrorMessage = ''unknown node C''\<rparr>,
     File_put_contents ''out_run.txt'' ''partial'',
     Stderr (Server_error ''unknown node C'' 1)], Returned 1)"
  by code_simp

theorem failed_reply_still_written_witness:
  "Exchange (Client [] ''4291'' False)
       \<lparr>network = ''A -> B;'', fragments = [], variableOverrides = [],
        command = RUN_COMMAND, flags = 0\<rparr>
       \<lparr>getTraj = [], getRunLog = ''partial'', getProbTraj = [], getStatDist = [], getFP = [],
        getStatus = 1, getErrorMessage = ''unknown node C''\<rparr>
     \<in> set (fst (main sample_flags sample_files failing_server
                  [''--port'', ''4291'', ''-o'', ''out'', ''net.bnd''])) \<and>
   output_value (command_line [''--port'', ''4291'', ''-o'', ''out'', ''net.bnd'']) = Some ''out'' \<and>
   files_written (fst (main sample_flags sample_files failing_server
                  [''--port'', ''4291'', ''-o'', ''out'', ''net.bnd''])) =
     [(''out_run.txt'', ''partial'')] \<and>
   snd (main sample_flags sample_files failing_server
          [''--port'', ''4291'', ''-o'', ''out'', ''net.bnd'']) = Returned 1"
proof -
  have h: "Exchange (Client [] ''4291'' False)
       \<lparr>network = ''A -> B;'', fragments = [], variableOverrides = [],
        command = RUN_COMMAND, flags = 0\<rparr>
       \<lparr>getTraj = [], getRunLog = ''partial'', getProbTraj = [], getStatDist = [], getFP = [],
        getStatus = 1, getErrorMessage = ''unknown node C''\<rparr>
     \<in> set (fst (main sample_flags sample_files failing_server
                  [''--port'', ''4291'', ''-o'', ''out'', ''net.bnd'']))"
    by (simp add: failing_run)
  have s: "getStatus \<lparr>getTraj = [], getRunLog = ''partial'', getProbTraj = [], getStatDist = [],
        getFP = [], getStatus = 1, getErrorMessage = ''unknown node C''\<rparr> \<noteq> 0"
    by simp
  have p: "output_value (command_line [''--port'', ''4291'', ''-o'', ''out'', ''net.bnd'']) = Some ''out''"
    by code_simp
  have e: "expected_files ''out''
       \<lparr>getTraj = [], getRunLog = ''partial'', getProbTraj = [], getStatDist = [], getFP = [],
        getStatus = 1, getErrorMessage = ''unknown node C''\<rparr> = [(''out_run.txt'', ''partial'')]"
    by (simp add: expected_files_def blobs_def)
  from failed_reply_still_written [OF h s p] h p show ?thesis
    unfolding e by blast
qed

text \<open>
  The claim as stated fails: the reply below has status 1 and a run log, and the run log
  is written to \<open>out_run.txt\<close> before the error is reported.
\<close>

theorem failed_reply_blob_persisted:
  "main sample_flags sample_files failing_server [''--port'', ''4291'', ''-o'', ''out'', ''net.bnd''] =
   ([File_get_contents ''net.bnd'',
     Exchange (Client [] ''4291'' False)
       \<lparr>network = ''A -> B;'', fragments = [], variableOverrides = [],
        command = RUN_COMMAND, flags = 0\<rparr>
       \<lparr>getTraj = [], getRunLog = ''partial'', getProbTraj = [], getStatDist = [], getFP = [],
        getStatus = 1, getErrorMessage = ''unknown node C''\<rparr>,
     File_put_contents ''out_run.txt'' ''partial'',
     Stderr (Server_error ''unknown node C'' 1)], Returned 1) \<and>
   files_written (fst (main sample_flags sample_files failing_server
     [''--port'', ''4291'', ''-o'', ''out'', ''net.bnd''])) = [(''out_run.txt'', ''partial'')]"
  by (simp add: failing_run)

lemma some_blob_iff:
  "(\<exists>(suffix, blob) \<in> set (blobs reply). length blob > 0) =
     (getTraj reply \<noteq> [] \<or> getRunLog reply \<noteq> [] \<or> getProbTraj reply \<noteq> [] \<or>
      getStatDist reply \<noteq> [] \<or> getFP reply \<noteq> [])"
  by (simp add: blobs_def)

lemma main_without_prefix:
  assumes "Exchange client request reply \<in> set (fst (main K fs send argv))"
    and "output_value (command_line argv) = None"
  shows "\<exists>evs. (\<forall>e \<in> set evs. \<forall>file data. e \<noteq> File_put_contents file data) \<and>
     main K fs send argv =
       (if getTraj reply \<noteq> [] \<or> getRunLog reply \<noteq> [] \<or> getProbTraj reply \<noteq> [] \<or>
           getStatDist reply \<noteq> [] \<or> getFP reply \<noteq> []
        then (evs @ [Exchange client request reply], Undefined)
        else (evs @ [Exchange client request reply] @ fst (report reply), snd (report reply)))"
proof -
  from main_exchange [OF assms(1)] obtain evs st evs' where
    l: "main_loop initial argv = (evs, Inr st)" and b: "build_request K fs st = (evs', Inr request)"
    and m: "main K fs send argv =
        (case write_outputs (output_prefix st) reply of
           None \<Rightarrow> (evs @ evs' @ [Exchange client request reply], Undefined)
         | Some written \<Rightarrow>
             (evs @ evs' @ [Exchange client request reply] @ written @ fst (report reply),
              snd (report reply)))"
    by blast
  have o: "output_prefix st = None"
    using main_loop_initial(5) [OF l] assms(2) by simp
  have "\<forall>e \<in> set (evs @ evs'). \<forall>file data. e \<noteq> File_put_contents file data"
    using main_loop_no_io [OF l] build_request_events [OF b] by auto
  moreover have "main K fs send argv =
       (if getTraj reply \<noteq> [] \<or> getRunLog reply \<noteq> [] \<or> getProbTraj reply \<noteq> [] \<or>
           getStatDist reply \<noteq> [] \<or> getFP reply \<noteq> []
        then ((evs @ evs') @ [Exchange client request reply], Undefined)
        else ((evs @ evs') @ [Exchange client request reply] @ fst (report reply),
              snd (report reply)))"
    unfolding m o write_outputs_None some_blob_iff by simp
  ultimately show ?thesis by blast
qed

text \<open>
  Claim C9. \<^verbatim>\<open>output\<close> starts as a null pointer, only \<^verbatim>\<open>-o\<close> and \<^verbatim>\<open>--output\<close>
  assign it, and nothing between the loop and the exchange looks at it. In every run that
  reaches the exchange on a command line with neither option and gets a reply with at
  least one blob that is not empty, \<^verbatim>\<open>main\<close> goes from the exchange straight into
  \<^verbatim>\<open>std::string(output)\<close> on the null pointer: the exchange is the last event, no
  file is written, and \<^verbatim>\<open>main\<close> does not return an exit code.
\<close>

theorem null_prefix_reaches_write:
  assumes "Exchange client request reply \<in> set (fst (main K fs send argv))"
    and "output_value (command_line argv) = None"
    and "getTraj reply \<noteq> [] \<or> getRunLog reply \<noteq> [] \<or> getProbTraj reply \<noteq> [] \<or>
         getStatDist reply \<noteq> [] \<or> getFP reply \<noteq> []"
  shows "snd (main K fs send argv) = Undefined \<and>
         last (fst (main K fs send argv)) = Exchange client request reply \<and>
         files_written (fst (main K fs send argv)) = []"
proof -
  from main_without_prefix [OF assms(1,2)] assms(3) obtain evs where
    e: "\<forall>e \<in> set evs. \<forall>file data. e \<noteq> File_put_contents file data"
    and m: "main K fs send argv = (evs @ [Exchange client request reply], Undefined)"
    by auto
  have "files_written (evs @ [Exchange client request reply]) = []"
    using e by (intro files_written_none) auto
  then show ?thesis unfolding m by simp
qed

lemma no_prefix_run:
  "main sample_flags sample_files good_server [''--port'', ''4291'', ''net.bnd''] =
   ([File_get_contents ''net.bnd'',
     Exchange (Client [] ''4291'' False)
       \<lparr>network = ''A -> B;'', fragments = [], variableOverrides = [],
        command = RUN_COMMAND, flags = 0\<rparr>
       \<lparr>getTraj = [], getRunLog = [], getProbTraj = ''t,A,B'', getStatDist = [], getFP = [],
        getStatus = 0, getErrorMessage = []\<rparr>], Undefined)"
  by code_simp

theorem null_prefix_reaches_write_witness:
  "Exchange (Client [] ''4291'' False)
       \<lparr>network = ''A -> B;'', fragments = [], variableOverrides = [],
        command = RUN_COMMAND, flags = 0\<rparr>
       \<lparr>getTraj = [], getRunLog = [], getProbTraj = ''t,A,B'', getStatDist = [], getFP = [],
        getStatus = 0, getErrorMessage = []\<rparr>
     \<in> set (fst (main sample_flags sample_files good_server [''--port'', ''4291'', ''net.bnd''])) \<and>
   output_value (command_line [''--port'', ''4291'', ''net.bnd'']) = None \<and>
   snd (main sample_flags sample_files good_server [''--port'', ''4291'', ''net.bnd'']) = Undefined \<and>
   files_written (fst (main sample_flags sample_files good_server
     [''--port'', ''4291'', ''net.bnd''])) = []"
proof -
  have h: "Exchange (Client [] ''4291'' False)
       \<lparr>network = ''A -> B;'', fragments = [], variableOverrides = [],
        command = RUN_COMMAND, flags = 0\<rparr>
       \<lparr>getTraj = [], getRunLog = [], getProbTraj = ''t,A,B'', getStatDist = [], getFP = [],
        getStatus = 0, getErrorMessage = []\<rparr>
     \<in> set (fst (main sample_flags sample_files good_server [''--port'', ''4291'', ''net.bnd'']))"
    by (simp add: no_prefix_run)
  have p: "output_value (command_line [''--port'', ''4291'', ''net.bnd'']) = None"
    by code_simp
  have b: "getTraj \<lparr>getTraj = [], getRunLog = [], getProbTraj = ''t,A,B'', getStatDist = [],
        getFP = [], getStatus = 0, getErrorMessage = []\<rparr> \<noteq> [] \<or>
     getRunLog \<lparr>getTraj = [], getRunLog = [], getProbTraj = ''t,A,B'', getStatDist = [],
        getFP = [], getStatus = 0, getErrorMessage = []\<rparr> \<noteq> [] \<or>
     getProbTraj \<lparr>getTraj = [], getRunLog = [], getProbTraj = ''t,A,B'', getStatDist = [],
        getFP = [], getStatus = 0, getErrorMessage = []\<rparr> \<noteq> [] \<or>
     getStatDist \<lparr>getTraj = [], getRunLog = [], getProbTraj = ''t,A,B'', getStatDist = [],
        getFP = [], getStatus = 0, getErrorMessage = []\<rparr> \<noteq> [] \<or>
     getFP \<lparr>getTraj = [], getRunLog = [], getProbTraj = ''t,A,B'', getStatDist = [],
        getFP = [], getStatus = 0, getErrorMessage = []\<rparr> \<noteq> []"
    by simp
  from null_prefix_reaches_write [OF h p b] h p show ?thesis by blast
qed

text \<open>
  Where \<^verbatim>\<open>main\<close> returns after the exchange, the exit code follows the status of the
  reply, and a status that is not zero is reported on the standard error; and
  \<^verbatim>\<open>main\<close> does return unless the output prefix is missing and some blob is not empty.
\<close>

lemma report_result:
  "snd (report reply) = Returned (if getStatus reply = 0 then 0 else 1)"
  "getStatus reply \<noteq> 0 \<Longrightarrow>
     fst (report reply) = [Stderr (Server_error (getErrorMessage reply) (getStatus reply))]"
  by (simp_all add: report_def)

lemma returns_unless_null_prefix:
  assumes "Exchange client request reply \<in> set (fst (main K fs send argv))"
  shows "(snd (main K fs send argv) = Undefined) =
     (output_value (command_line argv) = None \<and>
      (getTraj reply \<noteq> [] \<or> getRunLog reply \<noteq> [] \<or> getProbTraj reply \<noteq> [] \<or>
       getStatDist reply \<noteq> [] \<or> getFP reply \<noteq> []))"
proof (cases "output_value (command_line argv)")
  case None
  let ?B = "getTraj reply \<noteq> [] \<or> getRunLog reply \<noteq> [] \<or> getProbTraj reply \<noteq> [] \<or>
       getStatDist reply \<noteq> [] \<or> getFP reply \<noteq> []"
  from main_without_prefix [OF assms None] obtain evs where
    m: "main K fs send argv =
       (if ?B then (evs @ [Exchange client request reply], Undefined)
        else (evs @ [Exchange client request reply] @ fst (report reply), snd (report reply)))"
    by blast
  have "(snd (main K fs send argv) = Undefined) = ?B"
  proof (cases ?B)
    case True
    then show ?thesis unfolding m by (simp only: if_True snd_conv simp_thms)
  next
    case False
    then show ?thesis unfolding m by (simp only: if_False snd_conv report_result(1)) simp
  qed
  with None show ?thesis by (simp only: simp_thms)
next
  case (Some prefix)
  have "snd (main K fs send argv) = Returned (if getStatus reply = 0 then 0 else 1)"
    by (subst main_files_written(1) [OF assms Some]) (simp only: snd_conv)
  with Some show ?thesis by simp
qed

lemma exit_code_of_status:
  assumes "Exchange client request reply \<in> set (fst (main K fs send argv))"
    and "snd (main K fs send argv) = Returned code"
  shows "code = (if getStatus reply = 0 then 0 else 1)"
    and "getStatus reply \<noteq> 0 \<Longrightarrow>
          last (fst (main K fs send argv)) =
            Stderr (Server_error (getErrorMessage reply) (getStatus reply))"
proof -
  let ?B = "getTraj reply \<noteq> [] \<or> getRunLog reply \<noteq> [] \<or> getProbTraj reply \<noteq> [] \<or>
       getStatDist reply \<noteq> [] \<or> getFP reply \<noteq> []"
  have r: "\<not> (output_value (command_line argv) = None \<and> ?B)"
    using returns_unless_null_prefix [OF assms(1)] assms(2) by simp
  have "code = (if getStatus reply = 0 then 0 else 1) \<and>
    (getStatus reply \<noteq> 0 \<longrightarrow>
          last (fst (main K fs send argv)) =
            Stderr (Server_error (getErrorMessage reply) (getStatus reply)))"
  proof (cases "output_value (command_line argv)")
    case None
    with r have nb: "\<not> ?B" by simp
    from main_without_prefix [OF assms(1) None] obtain evs where
      "main K fs send argv =
       (if ?B then (evs @ [Exchange client request reply], Undefined)
        else (evs @ [Exchange client request reply] @ fst (report reply), snd (report reply)))"
      by blast
    then have m: "main K fs send argv =
       (evs @ [Exchange client request reply] @ fst (report reply), snd (report reply))"
      using nb by (simp only: if_False)
    have "Returned code = Returned (if getStatus reply = 0 then 0 else 1)"
      using assms(2) unfolding m by (simp only: snd_conv report_result(1))
    then show ?thesis
      unfolding m by (simp add: report_result(2))
  next
    case (Some prefix)
    have "snd (main K fs send argv) = Returned (if getStatus reply = 0 then 0 else 1)"
      by (subst main_files_written(1) [OF assms(1) Some]) (simp only: snd_conv)
    with assms(2) have "code = (if getStatus reply = 0 then 0 else 1)" by simp
    with main_files_written(3) [OF assms(1) Some] show ?thesis by simp
  qed
  then show "code = (if getStatus reply = 0 then 0 else 1)"
    and "getStatus reply \<noteq> 0 \<Longrightarrow>
          last (fst (main K fs send argv)) =
            Stderr (Server_error (getErrorMessage reply) (getStatus reply))"
    by blast+
qed

text \<open>
  Claim C6 on a run without an output prefix. The reply has status 1, an error message
  and a run log; \<^verbatim>\<open>main\<close> runs into \<^verbatim>\<open>std::string(output)\<close> on the null pointer at
  the run log, before the lines that print the error message and return 1: nothing is
  printed on the standard error and no exit code is returned.
\<close>

theorem status_not_reported_without_prefix:
  "main sample_flags sample_files failing_server [''--port'', ''4291'', ''net.bnd''] =
   ([File_get_contents ''net.bnd'',
     Exchange (Client [] ''4291'' False)
       \<lparr>network = ''A -> B;'', fragments = [], variableOverrides = [],
        command = RUN_COMMAND, flags = 0\<rparr>
       \<lparr>getTraj = [], getRunLog = ''partial'', getProbTraj = [], getStatDist = [], getFP = [],
        getStatus = 1, getErrorMessage = ''unknown node C''\<rparr>], Undefined)"
  by code_simp

text \<open>
  Claim C8, as the code has it. In every run that reaches the exchange, the network
  field of the request is the text read from the file that the first positional argument
  names. Nothing checks that the text is not empty: the field is empty exactly when the
  file is.
\<close>

theorem network_is_file_contents:
  assumes "Exchange client request reply \<in> set (fst (main K fs send argv))"
  shows "\<exists>path others. positionals (command_line argv) = path # others \<and>
           fileGetContents fs path = Some (network request)"
proof -
  from main_exchange [OF assms] obtain evs st evs' where
    l: "main_loop initial argv = (evs, Inr st)" and b: "build_request K fs st = (evs', Inr request)"
    by blast
  from build_request_result [OF b] obtain path where
    "ctbndl_file st = Some path" "fs path = Some (network request)"
    by auto
  with main_loop_initial(6) [OF l] show ?thesis
    by (auto simp: fileGetContents_def split: list.splits)
qed

theorem network_is_file_contents_witness:
  "Exchange (Client [] ''4291'' False)
      \<lparr>network = ''A -> B;'', fragments = [FILE_CONTENTS ''A=1'', EXPR ''A=2''],
       variableOverrides = ''B=1,C=2'', command = RUN_COMMAND, flags = 3\<rparr>
      \<lparr>getTraj = [], getRunLog = [], getProbTraj = ''t,A,B'', getStatDist = [], getFP = [],
       getStatus = 0, getErrorMessage = []\<rparr>
     \<in> set (fst (main sample_flags sample_files good_server full_argv)) \<and>
   positionals (command_line full_argv) = [''net.bnd''] \<and>
   fileGetContents sample_files ''net.bnd'' = Some ''A -> B;''"
proof -
  have h: "Exchange (Client [] ''4291'' False)
      \<lparr>network = ''A -> B;'', fragments = [FILE_CONTENTS ''A=1'', EXPR ''A=2''],
       variableOverrides = ''B=1,C=2'', command = RUN_COMMAND, flags = 3\<rparr>
      \<lparr>getTraj = [], getRunLog = [], getProbTraj = ''t,A,B'', getStatDist = [], getFP = [],
       getStatus = 0, getErrorMessage = []\<rparr>
     \<in> set (fst (main sample_flags sample_files good_server full_argv))"
    by (simp add: full_run)
  have p: "positionals (command_line full_argv) = [''net.bnd'']"
    by code_simp
  from network_is_file_contents [OF h] h p show ?thesis by simp
qed

text \<open>
  The claim as stated fails on a network file that is empty: the request is sent with an
  empty network field.
\<close>

theorem empty_network_sent:
  "main sample_flags sample_files good_server [''--port'', ''4291'', ''-o'', ''out'', ''empty.bnd''] =
   ([File_get_contents ''empty.bnd'',
     Exchange (Client [] ''4291'' False)
       \<lparr>network = [], fragments = [], variableOverrides = [],
        command = RUN_COMMAND, flags = 0\<rparr>
       \<lparr>getTraj = [], getRunLog = [], getProbTraj = ''t,A,B'', getStatDist = [], getFP = [],
        getStatus = 0, getErrorMessage = []\<rparr>,
     File_put_contents ''out_probtraj.csv'' ''t,A,B''], Returned 0)"
  by code_simp

subsection \<open>Rejected and ignored words\<close>

lemma no_io_filter: "(\<forall>e \<in> set evs. \<not> is_io e) \<Longrightarrow> filter is_io evs = []"
  by (simp add: filter_empty_conv)


lemma build_request_no_exclusive:
  assumes "build_request K fs st = (evs, r)"
  shows "Stderr Exclusive_options \<notin> set evs"
proof -
  have "Stderr Exclusive_options \<notin> set evs'"
    if "add_configs fs cd cfgs = (evs', r')" for cd cfgs evs' r'
    using add_configs_events [OF that] by auto
  then show ?thesis
    using assms unfolding build_request_def usage_def
    by (fastforce split: option.splits if_splits prod.splits sum.splits)
qed

lemma write_outputs_events:
  "write_outputs out reply = Some written \<Longrightarrow> Stderr m \<notin> set written"
  by (cases out) (auto simp: write_outputs_Some write_outputs_None split: if_splits)

lemma main_tail_no_exclusive:
  assumes "main_loop initial argv = (evs, r)"
  shows "\<exists>t res. main K fs send argv = (evs @ t, res) \<and> Stderr Exclusive_options \<notin> set t"
proof (cases r)
  case (Inl code)
  with assms show ?thesis by (simp add: main_def)
next
  case (Inr st)
  obtain evs2 r2 where b: "build_request K fs st = (evs2, r2)"
    by (cases "build_request K fs st")
  note n2 = build_request_no_exclusive [OF b]
  show ?thesis
  proof (cases r2)
    case (Inl code)
    with assms Inr b n2 show ?thesis by (simp add: main_def)
  next
    case req: (Inr request)
    show ?thesis
    proof (cases "write_outputs (output_prefix st)
        (send (Client (host st) (port st) (verbose st)) request)")
      case None
      with assms Inr b req n2 show ?thesis by (simp add: main_def Let_def)
    next
      case (Some written)
      with assms Inr b req n2 write_outputs_events [OF Some] show ?thesis
        by (simp add: main_def Let_def report_def)
    qed
  qed
qed

lemma exclusive_step:
  assumes "(override st \<and> x = ''--augment'') \<or> (augment st \<and> x = ''--override'')"
  shows "main_loop st (x # rest) = ([Stderr Exclusive_options, Stderr Usage_text], Inl 1)"
  using assms by (auto simp: step_known)

lemma flag_step:
  "\<not> augment st \<Longrightarrow>
     main_loop st (''--override'' # rest) = main_loop (st\<lparr>override := True\<rparr>) rest"
  "\<not> override st \<Longrightarrow>
     main_loop st (''--augment'' # rest) = main_loop (st\<lparr>augment := True\<rparr>) rest"
  by (simp_all add: step_known split: prod.splits)

text \<open>
  Claim C2, as the code has it. (1) When the loop has gone through the words \<open>pre\<close>
  without returning, one of \<^verbatim>\<open>--override\<close> and \<^verbatim>\<open>--augment\<close> is among them and the
  next word is the other one, \<^verbatim>\<open>main\<close> reports the two as exclusive options, prints
  the usage text and returns 1 there, and up to then no file has been read or written and
  nothing has been exchanged with the server. (2) On every command line that gives both
  switches, in either order, \<^verbatim>\<open>main\<close> returns an exit code without any such event:
  the loop never ends with both set. (3) On every command line that gives at most one of
  the two, that report is never made. (4) Where the loop has gone through the words
  \<open>pre\<close> without returning and meets one of the two switches while the other is not
  among \<open>pre\<close>, it sets the flag and goes on with the words after the switch.
\<close>

theorem exclusive_flags_rejected:
  "(main_loop initial pre = (evs, Inr st) \<and>
    (Switch ''--override'' \<in> set (command_line pre) \<and> x = ''--augment'' \<or>
     Switch ''--augment'' \<in> set (command_line pre) \<and> x = ''--override'') \<longrightarrow>
      main K fs send (pre @ x # rest) =
        (evs @ [Stderr Exclusive_options, Stderr Usage_text], Returned 1) \<and>
      filter is_io evs = []) \<and>
   (Switch ''--override'' \<in> set (command_line argv) \<and>
    Switch ''--augment'' \<in> set (command_line argv) \<longrightarrow>
      (\<exists>code. snd (main K fs send argv) = Returned code) \<and>
      filter is_io (fst (main K fs send argv)) = []) \<and>
   (\<not> (Switch ''--override'' \<in> set (command_line argv) \<and>
        Switch ''--augment'' \<in> set (command_line argv)) \<longrightarrow>
      Stderr Exclusive_options \<notin> set (fst (main K fs send argv))) \<and>
   (main_loop initial pre = (evs, Inr st) \<and> Switch ''--augment'' \<notin> set (command_line pre) \<longrightarrow>
      main_loop initial (pre @ ''--override'' # rest) =
        (case main_loop (st\<lparr>override := True\<rparr>) rest of (evs', r) \<Rightarrow> (evs @ evs', r))) \<and>
   (main_loop initial pre = (evs, Inr st) \<and> Switch ''--override'' \<notin> set (command_line pre) \<longrightarrow>
      main_loop initial (pre @ ''--augment'' # rest) =
        (case main_loop (st\<lparr>augment := True\<rparr>) rest of (evs', r) \<Rightarrow> (evs @ evs', r)))"
proof (intro conjI impI)
  assume a: "main_loop initial pre = (evs, Inr st) \<and>
    (Switch ''--override'' \<in> set (command_line pre) \<and> x = ''--augment'' \<or>
     Switch ''--augment'' \<in> set (command_line pre) \<and> x = ''--override'')"
  then have l: "main_loop initial pre = (evs, Inr st)" by blast
  have "(override st \<and> x = ''--augment'') \<or> (augment st \<and> x = ''--override'')"
    using a unfolding main_loop_initial(3,4) [OF l] by blast
  from exclusive_step [OF this]
  have "main_loop initial (pre @ x # rest) =
      (evs @ [Stderr Exclusive_options, Stderr Usage_text], Inl 1)"
    by (simp add: main_loop_append [OF l])
  then show "main K fs send (pre @ x # rest) =
        (evs @ [Stderr Exclusive_options, Stderr Usage_text], Returned 1)"
    by (simp add: main_def)
  show "filter is_io evs = []"
    using main_loop_no_io [OF l] by (rule no_io_filter)
next
  assume both: "Switch ''--override'' \<in> set (command_line argv) \<and>
    Switch ''--augment'' \<in> set (command_line argv)"
  obtain evs0 r where l: "main_loop initial argv = (evs0, r)"
    by (cases "main_loop initial argv")
  have "\<exists>code. r = Inl code"
  proof (cases r)
    case (Inl code)
    then show ?thesis by blast
  next
    case (Inr st0)
    with l have l': "main_loop initial argv = (evs0, Inr st0)" by simp
    from main_loop_initial(8) [OF l'] both show ?thesis
      unfolding main_loop_initial(3,4) [OF l'] by blast
  qed
  then obtain code where "r = Inl code" by blast
  with l have m: "main K fs send argv = (evs0, Returned code)"
    by (simp add: main_def)
  show "\<exists>code. snd (main K fs send argv) = Returned code"
    unfolding m by simp
  show "filter is_io (fst (main K fs send argv)) = []"
    unfolding m using main_loop_no_io [OF l] by (simp add: no_io_filter)
next
  assume one: "\<not> (Switch ''--override'' \<in> set (command_line argv) \<and>
        Switch ''--augment'' \<in> set (command_line argv))"
  obtain evs0 r where l: "main_loop initial argv = (evs0, r)"
    by (cases "main_loop initial argv")
  have "Stderr Exclusive_options \<notin> set evs0"
    using main_loop_exclusive [OF l] one by (auto simp: initial_def)
  with main_tail_no_exclusive [OF l, of K fs send]
  show "Stderr Exclusive_options \<notin> set (fst (main K fs send argv))"
    by auto
next
  assume a: "main_loop initial pre = (evs, Inr st) \<and>
    Switch ''--augment'' \<notin> set (command_line pre)"
  then have l: "main_loop initial pre = (evs, Inr st)" by blast
  have "\<not> augment st"
    using a unfolding main_loop_initial(4) [OF l] by blast
  from flag_step(1) [OF this, of rest]
  show "main_loop initial (pre @ ''--override'' # rest) =
        (case main_loop (st\<lparr>override := True\<rparr>) rest of (evs', r) \<Rightarrow> (evs @ evs', r))"
    by (simp only: main_loop_append [OF l])
next
  assume a: "main_loop initial pre = (evs, Inr st) \<and>
    Switch ''--override'' \<notin> set (command_line pre)"
  then have l: "main_loop initial pre = (evs, Inr st)" by blast
  have "\<not> override st"
    using a unfolding main_loop_initial(3) [OF l] by blast
  from flag_step(2) [OF this, of rest]
  show "main_loop initial (pre @ ''--augment'' # rest) =
        (case main_loop (st\<lparr>augment := True\<rparr>) rest of (evs', r) \<Rightarrow> (evs @ evs', r))"
    by (simp only: main_loop_append [OF l])
qed

lemma override_prefix_loop:
  "main_loop initial [''--port'', ''4291'', ''--override''] =
     ([], Inr \<lparr>output_prefix = None, runconfig_file_or_expr_v = [], config_vars = [],
               ctbndl_file = None, port = ''4291'', host = [], verbose = False, check = False,
               override = True, augment = False, hexfloat = False\<rparr>)"
  by code_simp

lemma port_prefix_loop:
  "main_loop initial [''--port'', ''4291''] =
     ([], Inr \<lparr>output_prefix = None, runconfig_file_or_expr_v = [], config_vars = [],
               ctbndl_file = None, port = ''4291'', host = [], verbose = False, check = False,
               override = False, augment = False, hexfloat = False\<rparr>)"
  by code_simp

theorem exclusive_flags_rejected_witness:
  "main sample_flags sample_files good_server
     ([''--port'', ''4291'', ''--override''] @ ''--augment'' # [''-o'', ''out'', ''net.bnd'']) =
     ([] @ [Stderr Exclusive_options, Stderr Usage_text], Returned 1) \<and>
   (\<exists>code. snd (main sample_flags sample_files good_server
        [''--augment'', ''--port'', ''4291'', ''net.bnd'', ''--override'']) = Returned code) \<and>
   filter is_io (fst (main sample_flags sample_files good_server
        [''--augment'', ''--port'', ''4291'', ''net.bnd'', ''--override''])) = [] \<and>
   Stderr Exclusive_options \<notin> set (fst (main sample_flags sample_files good_server full_argv)) \<and>
   main_loop initial ([''--port'', ''4291''] @ ''--override'' # [''net.bnd'']) =
     (case main_loop
        (\<lparr>output_prefix = None, runconfig_file_or_expr_v = [], config_vars = [],
          ctbndl_file = None, port = ''4291'', host = [], verbose = False, check = False,
          override = False, augment = False, hexfloat = False\<rparr>\<lparr>override := True\<rparr>)
        [''net.bnd''] of (evs', r) \<Rightarrow> ([] @ evs', r)) \<and>
   main_loop initial ([''--port'', ''4291''] @ ''--augment'' # [''net.bnd'']) =
     (case main_loop
        (\<lparr>output_prefix = None, runconfig_file_or_expr_v = [], config_vars = [],
          ctbndl_file = None, port = ''4291'', host = [], verbose = False, check = False,
          override = False, augment = False, hexfloat = False\<rparr>\<lparr>augment := True\<rparr>)
        [''net.bnd''] of (evs', r) \<Rightarrow> ([] @ evs', r))"
proof -
  have 1: "main_loop initial [''--port'', ''4291'', ''--override''] =
     ([], Inr \<lparr>output_prefix = None, runconfig_file_or_expr_v = [], config_vars = [],
               ctbndl_file = None, port = ''4291'', host = [], verbose = False, check = False,
               override = True, augment = False, hexfloat = False\<rparr>) \<and>
    (Switch ''--override'' \<in> set (command_line [''--port'', ''4291'', ''--override'']) \<and>
       ''--augment'' = ''--augment'' \<or>
     Switch ''--augment'' \<in> set (command_line [''--port'', ''4291'', ''--override'']) \<and>
       ''--augment'' = ''--override'')"
  proof -
    have "Switch ''--override'' \<in> set (command_line [''--port'', ''4291'', ''--override''])"
      by code_simp
    with override_prefix_loop show ?thesis by blast
  qed
  have 2: "Switch ''--override'' \<in>
      set (command_line [''--augment'', ''--port'', ''4291'', ''net.bnd'', ''--override'']) \<and>
    Switch ''--augment'' \<in>
      set (command_line [''--augment'', ''--port'', ''4291'', ''net.bnd'', ''--override''])"
    by code_simp
  have 3: "\<not> (Switch ''--override'' \<in> set (command_line full_argv) \<and>
        Switch ''--augment'' \<in> set (command_line full_argv))"
    by code_simp
  have n: "Switch ''--augment'' \<notin> set (command_line [''--port'', ''4291''])"
    "Switch ''--override'' \<notin> set (command_line [''--port'', ''4291''])"
    by code_simp+
  have 4: "main_loop initial [''--port'', ''4291''] =
     ([], Inr \<lparr>output_prefix = None, runconfig_file_or_expr_v = [], config_vars = [],
               ctbndl_file = None, port = ''4291'', host = [], verbose = False, check = False,
               override = False, augment = False, hexfloat = False\<rparr>) \<and>
     Switch ''--augment'' \<notin> set (command_line [''--port'', ''4291''])"
    using port_prefix_loop n(1) by blast
  have 5: "main_loop initial [''--port'', ''4291''] =
     ([], Inr \<lparr>output_prefix = None, runconfig_file_or_expr_v = [], config_vars = [],
               ctbndl_file = None, port = ''4291'', host = [], verbose = False, check = False,
               override = False, augment = False, hexfloat = False\<rparr>) \<and>
     Switch ''--override'' \<notin> set (command_line [''--port'', ''4291''])"
    using port_prefix_loop n(2) by blast
  from exclusive_flags_rejected [of "[''--port'', ''4291'', ''--override'']" _ _ "''--augment''"
      sample_flags sample_files good_server "[''-o'', ''out'', ''net.bnd'']",
      THEN conjunct1, rule_format, OF 1]
    exclusive_flags_rejected [of _ _ _ _ sample_flags sample_files good_server _
      "[''--augment'', ''--port'', ''4291'', ''net.bnd'', ''--override'']",
      THEN conjunct2, THEN conjunct1, rule_format, OF 2]
    exclusive_flags_rejected [of _ _ _ _ sample_flags sample_files good_server _ full_argv,
      THEN conjunct2, THEN conjunct2, THEN conjunct1, rule_format, OF 3]
    exclusive_flags_rejected [of "[''--port'', ''4291'']" _ _ _ _ _ _ "[''net.bnd'']",
      THEN conjunct2, THEN conjunct2, THEN conjunct2, THEN conjunct1, rule_format, OF 4]
    exclusive_flags_rejected [of "[''--port'', ''4291'']" _ _ _ _ _ _ "[''net.bnd'']",
      THEN conjunct2, THEN conjunct2, THEN conjunct2, THEN conjunct2, rule_format, OF 5]
  show ?thesis by blast
qed

text \<open>
  The claim as stated fails where an earlier word makes \<^verbatim>\<open>main\<close> return before the
  second switch is looked at: with \<^verbatim>\<open>--help\<close> between \<^verbatim>\<open>--override\<close> and
  \<^verbatim>\<open>--augment\<close> the command line gives both switches, and \<^verbatim>\<open>main\<close> prints the
  help text and returns 0 without rejecting anything.
\<close>

theorem help_before_second_flag:
  "Switch ''--override'' \<in> set (command_line [''--override'', ''--help'', ''--augment'']) \<and>
   Switch ''--augment'' \<in> set (command_line [''--override'', ''--help'', ''--augment'']) \<and>
   main sample_flags sample_files good_server [''--override'', ''--help'', ''--augment''] =
     ([Stdout Usage_text, Stdout Options_text], Returned 0)"
  by code_simp




end
